theory Spec2Isabelle
  imports Main "HOL-Library.Word" "HOL-Library.Signed_Division"
begin

section \<open>Fixed-point numbers (package fxp)\<close>

text \<open>
  Modelled from the spec: package \<open>model/fxp\<close> is not among the sources; the spec only
  says that numeric values are "fxp-style fixed-point decimals". \<open>fxp.Int\<close> is taken as a
  signed 64-bit integer holding the value scaled by \<open>Multiplier\<close> (four decimal places);
  \<open>fxp.Min\<close> and \<open>fxp.Max\<close> are the least and the greatest such integer. Go's \<open>+\<close>, \<open>-\<close>
  and \<open>*\<close> on it wrap around, \<open>/\<close> and \<open>%\<close> truncate towards zero, and comparisons are
  signed (\<open><s\<close>, \<open>\<le>s\<close> on words). The methods \<open>Mul\<close>, \<open>Div\<close>, \<open>Trunc\<close> and \<open>Max\<close> and the
  function \<open>From\<close> of the package are modelled here on that reading; \<open>ParseInt\<close> and
  \<open>FormatInt\<close> are those of Go's \<open>strconv\<close>.
\<close>

type_synonym fxp = "64 word"

definition fxp_Min :: fxp where
  "fxp_Min = - (2 ^ 63)"

definition fxp_Max :: fxp where
  "fxp_Max = 2 ^ 63 - 1"

definition Multiplier :: fxp where
  "Multiplier = 10000"

definition quo :: "fxp \<Rightarrow> fxp \<Rightarrow> fxp" where
  \<comment> \<open>Go's \<open>a / b\<close> on int64 (the divisor is never zero where the model uses it)\<close>
  "quo a b = word_of_int (sint a sdiv sint b)"

definition rem :: "fxp \<Rightarrow> fxp \<Rightarrow> fxp" where
  \<comment> \<open>Go's \<open>a % b\<close> on int64\<close>
  "rem a b = word_of_int (sint a smod sint b)"

definition fxp_From :: "64 word \<Rightarrow> fxp" where
  \<comment> \<open>\<open>fxp.From(n)\<close> for a Go \<open>int\<close>\<close>
  "fxp_From n = n * Multiplier"

definition fxp_Two :: fxp where
  "fxp_Two = fxp_From 2"

definition fxp_Three :: fxp where
  "fxp_Three = fxp_From 3"

definition Mul :: "fxp \<Rightarrow> fxp \<Rightarrow> fxp" where
  "Mul f v = quo (f * v) Multiplier"

definition Div :: "fxp \<Rightarrow> fxp \<Rightarrow> fxp" where
  "Div f v = quo (f * Multiplier) v"

definition Trunc :: "fxp \<Rightarrow> fxp" where
  "Trunc f = quo f Multiplier * Multiplier"

definition fxp_max :: "fxp \<Rightarrow> fxp \<Rightarrow> fxp" where
  \<comment> \<open>the method \<open>f.Max(v)\<close>\<close>
  "fxp_max f v = (if v <s f then f else v)"

subsection \<open>Decimal text\<close>

definition isDigit :: "char \<Rightarrow> bool" where
  \<comment> \<open>\<open>ch >= '0' && ch <= '9'\<close> on a byte\<close>
  "isDigit ch \<longleftrightarrow> (48::nat) \<le> of_char ch \<and> of_char ch \<le> (57::nat)"

definition digitValue :: "char \<Rightarrow> nat" where
  \<comment> \<open>\<open>ch - '0'\<close>\<close>
  "digitValue ch = of_char ch - 48"

definition digitChar :: "nat \<Rightarrow> char" where
  "digitChar d = ''0123456789'' ! d"

fun digits :: "nat \<Rightarrow> string" where
  "digits n = (if n < 10 then [digitChar n] else digits (n div 10) @ [digitChar (n mod 10)])"

declare digits.simps [simp del]

definition FormatInt :: "int \<Rightarrow> string" where
  \<comment> \<open>\<open>strconv.FormatInt(i, 10)\<close>\<close>
  "FormatInt i = (if i < 0 then CHR ''-'' # digits (nat (- i)) else digits (nat i))"

definition digitsValue :: "string \<Rightarrow> nat" where
  "digitsValue ds = foldl (\<lambda>a c. a * 10 + digitValue c) 0 ds"

definition ParseInt :: "string \<Rightarrow> int option" where
  \<comment> \<open>\<open>strconv.ParseInt(s, 10, 64)\<close>; \<open>None\<close> is the error\<close>
  "ParseInt s =
     (let (neg, ds) = (case s of
                         [] \<Rightarrow> (False, [])
                       | c # r \<Rightarrow> if c = CHR ''-'' then (True, r)
                                  else if c = CHR ''+'' then (False, r) else (False, s))
      in if ds = [] \<or> \<not> list_all isDigit ds then None
         else let v = (if neg then - int (digitsValue ds) else int (digitsValue ds))
              in if v < - (2 ^ 63) \<or> 2 ^ 63 - 1 < v then None else Some v)"

text \<open>
  Modelled from the spec: \<open>fxp.Int.String\<close> (package \<open>model/fxp\<close>, not among the sources).
  The integer part in decimal; a fraction that is not zero follows after a point, without
  trailing zeros.
\<close>

definition fxp_String :: "fxp \<Rightarrow> string" where
  "fxp_String f =
     (let integer = quo f Multiplier; fraction = rem f Multiplier
      in if fraction = 0 then FormatInt (sint integer)
         else let fstr = FormatInt (sint ((if fraction <s 0 then - fraction else fraction) + Multiplier));
                  frac = rev (dropWhile (\<lambda>c. c = CHR ''0'') (rev (tl fstr)))
              in (if integer = 0 \<and> f <s 0 then ''-'' else []) @ FormatInt (sint integer) @ ''.'' @ frac)"

definition StringWithSign :: "fxp \<Rightarrow> string" where
  "StringWithSign f = (if 0 \<le>s f then ''+'' @ fxp_String f else fxp_String f)"

text \<open>
  Modelled from the spec: \<open>fxp.FromString\<close> (package \<open>model/fxp\<close>, not among the sources).
  An optional integer part and an optional fraction after a point, of which four digits
  count; \<open>None\<close> is the error return ("a range token that fails to parse as a number").
  Text in exponent notation is rejected here; \<open>resolveRange\<close> passes digits and at most
  one point only.
\<close>

definition fxp_FromString :: "string \<Rightarrow> fxp option" where
  "fxp_FromString str =
     (if str = [] \<or> CHR ''E'' \<in> set str \<or> CHR ''e'' \<in> set str then None
      else let p0 = takeWhile (\<lambda>c. c \<noteq> CHR ''.'') str;
               rest = dropWhile (\<lambda>c. c \<noteq> CHR ''.'') str
           in case (if p0 = [] then Some (False, 0)
                    else if p0 = ''-'' \<or> p0 = ''-0'' then Some (True, 0)
                    else (case ParseInt p0 of
                            None \<Rightarrow> None
                          | Some v \<Rightarrow> Some (v < 0, word_of_int \<bar>v\<bar> * Multiplier))) of
                None \<Rightarrow> None
              | Some (neg, v) \<Rightarrow>
                  (case rest of
                     [] \<Rightarrow> Some (if neg then - v else v)
                   | _ # p1 \<Rightarrow>
                       (case ParseInt (take 5 ((CHR ''1'' # p1) @ replicate 4 CHR ''0'')) of
                          None \<Rightarrow> None
                        | Some fr \<Rightarrow>
                            (let v' = v + word_of_int fr - Multiplier
                             in Some (if neg then - v' else v')))))"

section \<open>Data model\<close>

text \<open>
  Objects that the code shares by pointer and writes to (the bonuses) live in a store and
  are named by references; identity of a bonus is identity of its reference.
\<close>

type_synonym ref = nat

datatype EntityType = PC | OtherEntityType

datatype FeatureType =
    WeaponBonusFeatureType
  | WeaponAccBonusFeatureType
  | WeaponScopeAccBonusFeatureType
  | WeaponMinSTBonusFeatureType
  | SkillBonusFeatureType
  | OtherFeatureType nat

datatype WeaponSelectionType =
    WithRequiredSkillWeaponSelectionType
  | ThisWeaponWeaponSelectionType
  | WithNameWeaponSelectionType
  | UnknownWeaponSelectionType int  \<comment> \<open>a raw value that is none of the three constants\<close>

datatype SkillSelectionType =
    SkillsWithNameSkillSelectionType
  | ThisWeaponSkillSelectionType
  | WeaponsWithNameSkillSelectionType
  | InvalidSkillSelectionType

datatype WeaponType = MeleeWeaponType | RangedWeaponType | InvalidWeaponType

record LeveledAmount =
  Level :: fxp
  Amount :: fxp
  PerLevel :: bool

text \<open>
  The criteria types (\<open>StringCriteria\<close>, \<open>NumericCriteria\<close>) are not among the sources. A
  criteria value is represented by what the code observes of it: its \<open>Matches\<close> (and
  \<open>MatchesList\<close>) predicate, and for numeric criteria its \<open>String()\<close> as well.
\<close>

record WeaponBonus =
  wb_Type :: FeatureType
  wb_SelectionType :: WeaponSelectionType
  wb_NameCriteria :: "string \<Rightarrow> bool"
  wb_SpecializationCriteria :: "string \<Rightarrow> bool"
  wb_TagsCriteria :: "string list \<Rightarrow> bool"
  wb_LeveledAmount :: LeveledAmount
  wb_SubOwner :: "ref option"

record SkillBonus =
  sb_SelectionType :: SkillSelectionType
  sb_SpecializationCriteria :: "string \<Rightarrow> bool"
  sb_LeveledAmount :: LeveledAmount
  sb_SubOwner :: "ref option"

text \<open>
  A feature is an interface value. The code asks it for its \<open>FeatureType()\<close> and tests its
  dynamic type: \<open>*WeaponBonus\<close>, \<open>*SkillBonus\<close>, another implementation of \<open>Bonus\<close>, or
  a feature that is not a \<open>Bonus\<close>.
\<close>

datatype Feature =
    WeaponBonusF ref
  | SkillBonusF ref
  | OtherBonusF ref FeatureType
  | OtherFeature FeatureType

record SkillDefault =
  DefaultType :: string
  Name :: string
  Specialization :: string

text \<open>
  The entity is consumed through its accessor surface (spec, section 6); \<open>entity.go\<close> is
  not among the sources. Each field holds what the accessor of that name returns:
  \<open>EncumbrancePenaltyValue\<close> is \<open>EncumbranceLevel(true).Penalty()\<close>, \<open>SkillLevelFast d\<close> is
  \<open>d.SkillLevelFast(entity, false, nil, true)\<close>, and the three \<open>...BonusesFor\<close> fields
  enumerate, for a name, a usage or specialization and a tag list, the bonuses of the
  entity that are keyed to them.
\<close>

record Entity =
  Entity_Type :: EntityType
  StrikingStrength :: fxp
  ThrowingStrength :: fxp
  EncumbrancePenaltyValue :: fxp
  ParryBonus :: fxp
  BlockBonus :: fxp
  SkillLevelFast :: "SkillDefault \<Rightarrow> fxp"
  NamedWeaponSkillBonusRefs :: "string \<Rightarrow> string \<Rightarrow> string list \<Rightarrow> ref list"
  WeaponWithSkillBonusRefs :: "string \<Rightarrow> string \<Rightarrow> string list \<Rightarrow> ref list"
  NamedWeaponBonusRefs :: "string \<Rightarrow> string \<Rightarrow> string list \<Rightarrow> ref list"
  ResolveAttributeCurrent :: "string \<Rightarrow> fxp"
  ResolveAttributeName :: "string \<Rightarrow> string"

record Modifier =
  mod_ID :: ref
  mod_Features :: "Feature list"

datatype OwnerKind = TraitOwner | EquipmentOwner | OtherOwner

text \<open>
  \<open>WeaponOwner\<close> is an interface; \<open>owner_Kind\<close> is the dynamic type the code switches on.
  The generic \<open>Traverse\<close> is not among the sources: \<open>Modifiers\<close> lists the modifiers that
  \<open>Traverse(f, true, true, owner.Modifiers...)\<close> hands to \<open>f\<close>, in that order.
\<close>

record WeaponOwner =
  owner_Kind :: OwnerKind
  OwningEntity :: "Entity option"
  Description :: string
  FeatureList :: "Feature list"
  TagList :: "string list"
  RatedStrength :: fxp
  Modifiers :: "Modifier list"

record Weapon =
  Weapon_Type :: WeaponType
  Jet :: bool
  Usage :: string
  Parry :: string
  Block :: string
  Range :: string
  WeaponAcc :: fxp
  ScopeAcc :: fxp
  MinST :: fxp
  Defaults :: "SkillDefault list"
  Owner :: "WeaponOwner option"

section \<open>The weapon and its owner\<close>

definition Weapon_String :: "Weapon \<Rightarrow> string" where
  "Weapon_String w = (case Owner w of None \<Rightarrow> [] | Some ow \<Rightarrow> Description ow)"

definition Weapon_Entity :: "Weapon \<Rightarrow> Entity option" where
  "Weapon_Entity w = (case Owner w of None \<Rightarrow> None | Some ow \<Rightarrow> OwningEntity ow)"

definition Weapon_PC :: "Weapon \<Rightarrow> Entity option" where
  "Weapon_PC w =
     (case Weapon_Entity w of
        None \<Rightarrow> None
      | Some entity \<Rightarrow> if Entity_Type entity = PC then Some entity else None)"

section \<open>Range resolution\<close>

definition IndexByte :: "string \<Rightarrow> char \<Rightarrow> nat option" where
  \<comment> \<open>\<open>strings.IndexByte\<close>; \<open>None\<close> is \<open>-1\<close>\<close>
  "IndexByte s c = (if c \<in> set s then Some (length (takeWhile (\<lambda>d. d \<noteq> c) s)) else None)"

text \<open>
  The scanning loop of \<open>resolveRange\<close>, on the text that starts at \<open>last\<close>: the number of
  bytes it steps over. \<open>found\<close> is that this number is not zero.
\<close>

fun scanNumber :: "bool \<Rightarrow> string \<Rightarrow> nat" where
  "scanNumber decimal [] = 0"
| "scanNumber decimal (ch # rest) =
     (if (\<not> decimal \<and> ch = CHR ''.'') \<or> isDigit ch
      then Suc (scanNumber (decimal \<or> ch = CHR ''.'') rest)
      else 0)"

definition resolveRange :: "string \<Rightarrow> fxp \<Rightarrow> string" where
  "resolveRange inRange st =
     (case IndexByte inRange CHR ''x'' of
        None \<Rightarrow> inRange
      | Some wh \<Rightarrow>
          (let maximum = length inRange;
               last0 = (if wh + 1 < maximum \<and> inRange ! (wh + 1) = CHR '' '' then wh + 2 else wh + 1)
           in if last0 \<ge> maximum then inRange
              else let n = scanNumber False (drop last0 inRange);
                       last = last0 + n
                   in if n = 0 then inRange
                      else (case fxp_FromString (take n (drop last0 inRange)) of
                              None \<Rightarrow> inRange
                            | Some v \<Rightarrow>
                                (if wh > 0 then take wh inRange else [])
                                @ fxp_String (Trunc (Mul v st))
                                @ (if last < maximum then drop last inRange else []))))"

text \<open>
  The loop of \<open>ResolvedRange\<close>: \<open>for calcRange != savedRange { ... }\<close>. It may in principle
  run forever, so not returning is the value \<open>None\<close>.
\<close>

partial_function (option) rangeLoop :: "fxp \<Rightarrow> string \<Rightarrow> string \<Rightarrow> string option" where
  "rangeLoop st savedRange calcRange =
     (if calcRange \<noteq> savedRange
      then rangeLoop st calcRange (resolveRange calcRange st)
      else Some calcRange)"

definition effectiveStrength :: "Weapon \<Rightarrow> fxp" where
  \<comment> \<open>the value of \<open>st\<close> in \<open>ResolvedRange\<close> before the loop\<close>
  "effectiveStrength w =
     (let st = (case Owner w of None \<Rightarrow> 0 | Some ow \<Rightarrow> RatedStrength ow)
      in if st = 0
         then (case Weapon_PC w of None \<Rightarrow> st | Some pc \<Rightarrow> ThrowingStrength pc)
         else st)"

definition ResolvedRange :: "Weapon \<Rightarrow> string option" where
  "ResolvedRange w =
     (let st = effectiveStrength w
      in if st = 0 then Some (Range w) else rangeLoop st [] (Range w))"

section \<open>Collaborators that are not among the sources\<close>

text \<open>
  Methods the modelled code calls and whose bodies are not among the sources are taken as
  parameters: \<open>DerivedLevel\<close> is \<open>WeaponBonus.DerivedLevel\<close>; \<open>WeaponBonusTooltip\<close> and
  \<open>SkillBonusTooltip\<close> give the text that \<open>AddToTooltip\<close> of a bonus in the given state
  appends to a buffer (it may be empty); \<open>SkillBased\<close> is \<open>SkillDefault.SkillBased\<close>; \<open>i18n_Text\<close> is
  \<open>i18n.Text\<close>; \<open>HasText\<close> is the function of that name; \<open>ResolveBoolFlag\<close> is the method
  of that name of the weapon, as \<open>WeaponAccuracy.Resolve\<close> calls it.
\<close>

datatype WeaponSwitchType = JetWeaponSwitchType | OtherWeaponSwitchType

record Externals =
  DerivedLevel :: "WeaponBonus \<Rightarrow> fxp"
  WeaponBonusTooltip :: "WeaponBonus \<Rightarrow> string"
  SkillBonusTooltip :: "SkillBonus \<Rightarrow> string"
  SkillBased :: "SkillDefault \<Rightarrow> bool"
  i18n_Text :: "string \<Rightarrow> string"
  HasText :: "bool \<Rightarrow> string"
  ResolveBoolFlag :: "Weapon \<Rightarrow> WeaponSwitchType \<Rightarrow> bool \<Rightarrow> bool"

text \<open>
  The identifiers of the default types are declared outside the sources; the code only
  compares them, so all that matters is that they are three different strings.
\<close>

definition SkillID :: string where
  "SkillID = ''skill''"

definition ParryID :: string where
  "ParryID = ''parry''"

definition BlockID :: string where
  "BlockID = ''block''"

text \<open>
  The generated \<open>EnsureValid\<close> of an enum returns the value itself when it is one of the
  constants and the first constant otherwise (as \<open>srcstate.Value.EnsureValid\<close> does).
\<close>

fun WeaponType_EnsureValid :: "WeaponType \<Rightarrow> WeaponType" where
  "WeaponType_EnsureValid InvalidWeaponType = MeleeWeaponType"
| "WeaponType_EnsureValid t = t"

fun SkillSelectionType_EnsureValid :: "SkillSelectionType \<Rightarrow> SkillSelectionType" where
  "SkillSelectionType_EnsureValid InvalidSkillSelectionType = SkillsWithNameSkillSelectionType"
| "SkillSelectionType_EnsureValid t = t"

text \<open>
  Modelled from the spec: \<open>LeveledAmount.AdjustedAmount\<close> (not among the sources):
  "resolved amount = base \<times> level (or base, if not per-level)".
\<close>

definition AdjustedAmount :: "LeveledAmount \<Rightarrow> fxp" where
  "AdjustedAmount la = (if PerLevel la then Mul (Amount la) (Level la) else Amount la)"

section \<open>The store of shared objects, the log and the tooltip buffer\<close>

text \<open>
  \<open>weaponBonuses\<close> and \<open>skillBonuses\<close> hold the \<open>*WeaponBonus\<close> and \<open>*SkillBonus\<close> objects,
  \<open>otherSubOwners\<close> the sub-owner field of every other \<open>Bonus\<close>, \<open>errLog\<close> what \<open>errs.Log\<close>
  has been given. A \<open>*xio.ByteBuffer\<close> is \<open>None\<close> when the pointer is nil.
\<close>

record Store =
  weaponBonuses :: "ref \<Rightarrow> WeaponBonus"
  skillBonuses :: "ref \<Rightarrow> SkillBonus"
  otherSubOwners :: "ref \<Rightarrow> ref option"
  errLog :: "(string \<times> int) list"

type_synonym ByteBuffer = string

definition WriteString :: "string \<Rightarrow> ByteBuffer option \<Rightarrow> ByteBuffer option" where
  \<comment> \<open>a write that the code guards with \<open>tooltip != nil\<close>\<close>
  "WriteString txt tooltip = (case tooltip of None \<Rightarrow> None | Some buf \<Rightarrow> Some (buf @ txt))"

definition WeaponBonus_AddToTooltip ::
  "Externals \<Rightarrow> WeaponBonus \<Rightarrow> ByteBuffer option \<Rightarrow> ByteBuffer option" where
  "WeaponBonus_AddToTooltip X bonus tooltip = WriteString (WeaponBonusTooltip X bonus) tooltip"

definition SkillBonus_AddToTooltip ::
  "Externals \<Rightarrow> SkillBonus \<Rightarrow> ByteBuffer option \<Rightarrow> ByteBuffer option" where
  "SkillBonus_AddToTooltip X bonus tooltip = WriteString (SkillBonusTooltip X bonus) tooltip"

text \<open>
  \<open>f.FeatureType()\<close>: a bonus reports its \<open>Type\<close> field (as \<open>ConditionalModifier.FeatureType\<close>
  does); the feature type of a skill bonus is the one of skill bonuses.
\<close>

fun Feature_FeatureType :: "Store \<Rightarrow> Feature \<Rightarrow> FeatureType" where
  "Feature_FeatureType s (WeaponBonusF r) = wb_Type (weaponBonuses s r)"
| "Feature_FeatureType s (SkillBonusF r) = SkillBonusFeatureType"
| "Feature_FeatureType s (OtherBonusF r t) = t"
| "Feature_FeatureType s (OtherFeature t) = t"

text \<open>
  \<open>if bonus, ok = f.(Bonus); ok { bonus.SetSubOwner(mod) }\<close>: the setter stores the
  modifier in the sub-owner field of the bonus (as \<open>ConditionalModifier.SetOwner\<close> does
  for the owner field); a feature that is not a \<open>Bonus\<close> is left alone.
\<close>

fun SetSubOwner :: "Feature \<Rightarrow> ref \<Rightarrow> Store \<Rightarrow> Store" where
  "SetSubOwner (WeaponBonusF r) m s =
     s\<lparr>weaponBonuses := (weaponBonuses s)(r := (weaponBonuses s r)\<lparr>wb_SubOwner := Some m\<rparr>)\<rparr>"
| "SetSubOwner (SkillBonusF r) m s =
     s\<lparr>skillBonuses := (skillBonuses s)(r := (skillBonuses s r)\<lparr>sb_SubOwner := Some m\<rparr>)\<rparr>"
| "SetSubOwner (OtherBonusF r t) m s = s\<lparr>otherSubOwners := (otherSubOwners s)(r \<mapsto> m)\<rparr>"
| "SetSubOwner (OtherFeature t) m s = s"

text \<open>
  The methods of \<open>w.Owner\<close> that the aggregation calls. On a nil owner they would be a nil
  dereference; every call is made under \<open>w.PC() != nil\<close>, which has an owner.
\<close>

definition Owner_TagList :: "Weapon \<Rightarrow> string list" where
  "Owner_TagList w = (case Owner w of None \<Rightarrow> [] | Some ow \<Rightarrow> TagList ow)"

definition Owner_FeatureList :: "Weapon \<Rightarrow> Feature list" where
  "Owner_FeatureList w = (case Owner w of None \<Rightarrow> [] | Some ow \<Rightarrow> FeatureList ow)"

definition Owner_Modifiers :: "Weapon \<Rightarrow> Modifier list" where
  \<comment> \<open>the modifiers visited by the two \<open>Traverse\<close> calls: those of a trait or of an equipment\<close>
  "Owner_Modifiers w =
     (case Owner w of
        None \<Rightarrow> []
      | Some ow \<Rightarrow> if owner_Kind ow = TraitOwner \<or> owner_Kind ow = EquipmentOwner
                   then Modifiers ow else [])"

section \<open>Bonus aggregation\<close>

definition setLevel :: "fxp \<Rightarrow> WeaponBonus \<Rightarrow> WeaponBonus" where
  \<comment> \<open>\<open>bonus.LeveledAmount.Level = level\<close>\<close>
  "setLevel level bonus = bonus\<lparr>wb_LeveledAmount := (wb_LeveledAmount bonus)\<lparr>Level := level\<rparr>\<rparr>"

definition addToSet ::
  "Externals \<Rightarrow> ref \<Rightarrow> WeaponBonus \<Rightarrow> ref list \<times> ByteBuffer option \<Rightarrow> ref list \<times> ByteBuffer option" where
  \<comment> \<open>\<open>if _, exists := set[bonus]; !exists { set[bonus] = true; bonus.AddToTooltip(tooltip) }\<close>;
     the set is kept as the list of its keys in the order of insertion\<close>
  "addToSet X r bonus st =
     (case st of (bset, tooltip) \<Rightarrow>
        if r \<in> set bset then (bset, tooltip)
        else (bset @ [r], WeaponBonus_AddToTooltip X bonus tooltip))"

definition extractWeaponBonus ::
  "Externals \<Rightarrow> Weapon \<Rightarrow> Feature \<Rightarrow> FeatureType set \<Rightarrow> fxp
    \<Rightarrow> ref list \<times> ByteBuffer option \<times> Store \<Rightarrow> ref list \<times> ByteBuffer option \<times> Store" where
  "extractWeaponBonus X w f allowedFeatureTypes dieCount st =
     (case st of (bset, tooltip, s) \<Rightarrow>
        if Feature_FeatureType s f \<in> allowedFeatureTypes then
          (case f of
             WeaponBonusF r \<Rightarrow>
               (let stored = weaponBonuses s r;
                    level = Level (wb_LeveledAmount stored);
                    bonus = (if wb_Type stored = WeaponBonusFeatureType
                             then setLevel dieCount stored
                             else setLevel (DerivedLevel X stored) stored);
                    (acc, lg) =
                      (case wb_SelectionType bonus of
                         WithRequiredSkillWeaponSelectionType \<Rightarrow> ((bset, tooltip), errLog s)
                       | ThisWeaponWeaponSelectionType \<Rightarrow>
                           (if wb_SpecializationCriteria bonus (Usage w)
                            then (addToSet X r bonus (bset, tooltip), errLog s)
                            else ((bset, tooltip), errLog s))
                       | WithNameWeaponSelectionType \<Rightarrow>
                           (if wb_NameCriteria bonus (Weapon_String w)
                               \<and> wb_SpecializationCriteria bonus (Usage w)
                               \<and> wb_TagsCriteria bonus (Owner_TagList w)
                            then (addToSet X r bonus (bset, tooltip), errLog s)
                            else ((bset, tooltip), errLog s))
                       | UnknownWeaponSelectionType n \<Rightarrow>
                           ((bset, tooltip), errLog s @ [(''unknown selection type'', n)]))
                in (fst acc, snd acc,
                    s\<lparr>weaponBonuses := (weaponBonuses s)(r := setLevel level bonus),
                      errLog := lg\<rparr>))
           | _ \<Rightarrow> st)
        else st)"

fun bestSkillDefault ::
  "Externals \<Rightarrow> Entity \<Rightarrow> SkillDefault list \<Rightarrow> fxp \<times> SkillDefault option \<Rightarrow> fxp \<times> SkillDefault option" where
  "bestSkillDefault X pc [] acc = acc"
| "bestSkillDefault X pc (one # rest) (best, bestDef) =
     (if SkillBased X one \<and> best <s SkillLevelFast pc one
      then bestSkillDefault X pc rest (SkillLevelFast pc one, Some one)
      else bestSkillDefault X pc rest (best, bestDef))"

text \<open>
  Modelled from the spec: \<open>Entity.AddWeaponWithSkillBonusesFor\<close> and
  \<open>Entity.AddNamedWeaponBonusesFor\<close> (\<open>entity.go\<close> is not among the sources). Each walks
  the bonuses that the entity enumerates for the key, keeps those of an allowed feature
  type, and adds a bonus that is not yet in the set, asking it for its tooltip while its
  level is set for the call ("Level is set transiently during aggregation and must be
  restored afterward"); a bonus that is in the set already is passed over
  ("Deduplication is by bonus identity"). The store is the same afterwards.
\<close>

fun addEntityWeaponBonuses ::
  "Externals \<Rightarrow> FeatureType set \<Rightarrow> fxp \<Rightarrow> Store \<Rightarrow> ref list
    \<Rightarrow> ref list \<times> ByteBuffer option \<Rightarrow> ref list \<times> ByteBuffer option" where
  "addEntityWeaponBonuses X allowed level s [] acc = acc"
| "addEntityWeaponBonuses X allowed level s (r # rs) acc =
     addEntityWeaponBonuses X allowed level s rs
       (if wb_Type (weaponBonuses s r) \<in> allowed
        then addToSet X r (setLevel level (weaponBonuses s r)) acc
        else acc)"

definition AddWeaponWithSkillBonusesFor ::
  "Externals \<Rightarrow> Entity \<Rightarrow> string \<Rightarrow> string \<Rightarrow> string list \<Rightarrow> 64 word \<Rightarrow> FeatureType set \<Rightarrow> Store
    \<Rightarrow> ref list \<times> ByteBuffer option \<Rightarrow> ref list \<times> ByteBuffer option" where
  "AddWeaponWithSkillBonusesFor X pc name specialization tags dieCount allowed s acc =
     addEntityWeaponBonuses X allowed (fxp_From dieCount) s
       (WeaponWithSkillBonusRefs pc name specialization tags) acc"

definition AddNamedWeaponBonusesFor ::
  "Externals \<Rightarrow> Entity \<Rightarrow> string \<Rightarrow> string \<Rightarrow> string list \<Rightarrow> 64 word \<Rightarrow> FeatureType set \<Rightarrow> Store
    \<Rightarrow> ref list \<times> ByteBuffer option \<Rightarrow> ref list \<times> ByteBuffer option" where
  "AddNamedWeaponBonusesFor X pc name usage tags dieCount allowed s acc =
     addEntityWeaponBonuses X allowed (fxp_From dieCount) s
       (NamedWeaponBonusRefs pc name usage tags) acc"

definition modifierFeatures ::
  "Externals \<Rightarrow> Weapon \<Rightarrow> FeatureType set \<Rightarrow> fxp \<Rightarrow> Modifier
    \<Rightarrow> ref list \<times> ByteBuffer option \<times> Store \<Rightarrow> ref list \<times> ByteBuffer option \<times> Store" where
  \<comment> \<open>the function that \<open>collectWeaponBonuses\<close> gives to \<open>Traverse\<close>\<close>
  "modifierFeatures X w allowed dieCount m st =
     fold (\<lambda>f (bset, tooltip, s).
             extractWeaponBonus X w f allowed dieCount (bset, tooltip, SetSubOwner f (mod_ID m) s))
          (mod_Features m) st"

text \<open>
  The result is the list of the keys of \<open>bonusSet\<close>. Go ranges over a map in no fixed
  order; the model lists the keys in the order of insertion. The callers add up the
  amounts of the list, which does not depend on the order.
\<close>

definition collectWeaponBonuses ::
  "Externals \<Rightarrow> Weapon \<Rightarrow> 64 word \<Rightarrow> ByteBuffer option \<Rightarrow> FeatureType list \<Rightarrow> Store
    \<Rightarrow> ref list \<times> ByteBuffer option \<times> Store" where
  "collectWeaponBonuses X w dieCount tooltip allowedFeatureTypes s =
     (case Weapon_PC w of
        None \<Rightarrow> ([], tooltip, s)
      | Some pc \<Rightarrow>
          (let allowed = set allowedFeatureTypes;
               bestDef = snd (bestSkillDefault X pc (Defaults w) (fxp_Min, None));
               tags = Owner_TagList w;
               st1 = (case bestDef of
                        None \<Rightarrow> ([], tooltip)
                      | Some d \<Rightarrow> AddWeaponWithSkillBonusesFor X pc (Name d) (Specialization d)
                                    tags dieCount allowed s ([], tooltip));
               st2 = AddNamedWeaponBonusesFor X pc (Weapon_String w) (Usage w) tags dieCount
                       allowed s st1;
               st3 = fold (\<lambda>f. extractWeaponBonus X w f allowed (fxp_From dieCount))
                       (Owner_FeatureList w) (fst st2, snd st2, s)
           in fold (modifierFeatures X w allowed (fxp_From dieCount)) (Owner_Modifiers w) st3))"

definition sumAdjusted :: "Store \<Rightarrow> ref list \<Rightarrow> fxp \<Rightarrow> fxp" where
  \<comment> \<open>\<open>for _, bonus := range ... { v += bonus.AdjustedAmount() }\<close>\<close>
  "sumAdjusted s bonuses v =
     fold (\<lambda>r acc. acc + AdjustedAmount (wb_LeveledAmount (weaponBonuses s r))) bonuses v"

definition ResolvedMinimumStrength ::
  "Externals \<Rightarrow> Weapon \<Rightarrow> ByteBuffer option \<Rightarrow> Store \<Rightarrow> fxp \<times> ByteBuffer option \<times> Store" where
  "ResolvedMinimumStrength X w tooltip s =
     (let st = (case Owner w of None \<Rightarrow> 0 | Some ow \<Rightarrow> fxp_max (RatedStrength ow) 0)
      in if st \<noteq> 0 then (st, tooltip, s)
         else (case collectWeaponBonuses X w 1 tooltip [WeaponMinSTBonusFeatureType] s of
                 (bonuses, tooltip', s') \<Rightarrow>
                   (fxp_max (sumAdjusted s' bonuses (MinST w)) 0, tooltip', s')))"

definition addAccuracy :: "Store \<Rightarrow> ref \<Rightarrow> fxp \<times> fxp \<Rightarrow> fxp \<times> fxp" where
  \<comment> \<open>the body of the loop of \<open>ResolvedAccuracy\<close> and of \<open>WeaponAccuracy.Resolve\<close>\<close>
  "addAccuracy s r acc =
     (case acc of (weaponAcc, scopeAcc) \<Rightarrow>
        (case wb_Type (weaponBonuses s r) of
           WeaponAccBonusFeatureType \<Rightarrow>
             (weaponAcc + AdjustedAmount (wb_LeveledAmount (weaponBonuses s r)), scopeAcc)
         | WeaponScopeAccBonusFeatureType \<Rightarrow>
             (weaponAcc, scopeAcc + AdjustedAmount (wb_LeveledAmount (weaponBonuses s r)))
         | _ \<Rightarrow> (weaponAcc, scopeAcc)))"

definition ResolvedAccuracy ::
  "Externals \<Rightarrow> Weapon \<Rightarrow> ByteBuffer option \<Rightarrow> Store \<Rightarrow> (fxp \<times> fxp) \<times> ByteBuffer option \<times> Store" where
  "ResolvedAccuracy X w tooltip s =
     (if Jet w then ((0, 0), tooltip, s)
      else (case Weapon_PC w of
              None \<Rightarrow> ((WeaponAcc w, ScopeAcc w), tooltip, s)
            | Some pc \<Rightarrow>
                (case collectWeaponBonuses X w 1 tooltip
                        [WeaponAccBonusFeatureType, WeaponScopeAccBonusFeatureType] s of
                   (bonuses, tooltip', s') \<Rightarrow>
                     (case fold (addAccuracy s') bonuses (WeaponAcc w, ScopeAcc w) of
                        (weaponAcc, scopeAcc) \<Rightarrow>
                          ((fxp_max weaponAcc 0, fxp_max scopeAcc 0), tooltip', s')))))"

subsection \<open>\<open>WeaponAccuracy\<close> (weapon\_accuracy.go)\<close>

record WeaponAccuracy =
  Base :: fxp
  Scope :: fxp

definition Validate :: "WeaponAccuracy \<Rightarrow> WeaponAccuracy" where
  "Validate wa = \<lparr>Base = fxp_max (Base wa) 0, Scope = fxp_max (Scope wa) 0\<rparr>"

definition Resolve ::
  "Externals \<Rightarrow> WeaponAccuracy \<Rightarrow> Weapon \<Rightarrow> ByteBuffer option \<Rightarrow> Store
    \<Rightarrow> WeaponAccuracy \<times> ByteBuffer option \<times> Store" where
  "Resolve X wa w modifiersTooltip s =
     (if ResolveBoolFlag X w JetWeaponSwitchType (Jet w)
      then (\<lparr>Base = 0, Scope = 0\<rparr>, modifiersTooltip, s)
      else (case Weapon_PC w of
              None \<Rightarrow> (Validate wa, modifiersTooltip, s)
            | Some pc \<Rightarrow>
                (case collectWeaponBonuses X w 1 modifiersTooltip
                        [WeaponAccBonusFeatureType, WeaponScopeAccBonusFeatureType] s of
                   (bonuses, tooltip', s') \<Rightarrow>
                     (case fold (addAccuracy s') bonuses (Base wa, Scope wa) of
                        (b, sc) \<Rightarrow> (Validate \<lparr>Base = b, Scope = sc\<rparr>, tooltip', s')))))"

section \<open>Skill level\<close>

definition EncumbrancePenalty ::
  "Externals \<Rightarrow> Entity option \<Rightarrow> ByteBuffer option \<Rightarrow> fxp \<times> ByteBuffer option" where
  "EncumbrancePenalty X entity tooltip =
     (case entity of
        None \<Rightarrow> (0, tooltip)
      | Some e \<Rightarrow>
          (let penalty = EncumbrancePenaltyValue e
           in (penalty,
               if penalty \<noteq> 0
               then WriteString (''\<newline>'' @ i18n_Text X ''Encumbrance'' @ '' ['' @ StringWithSign penalty @ '']'')
                      tooltip
               else tooltip)))"

definition Contains :: "string \<Rightarrow> char \<Rightarrow> bool" where
  \<comment> \<open>\<open>strings.Contains(s, c)\<close> for a text \<open>c\<close> of one byte\<close>
  "Contains s c \<longleftrightarrow> c \<in> set s"

definition skillLevelPostAdjustment ::
  "Externals \<Rightarrow> Weapon \<Rightarrow> Entity \<Rightarrow> ByteBuffer option \<Rightarrow> fxp \<times> ByteBuffer option" where
  "skillLevelPostAdjustment X w entity tooltip =
     (if WeaponType_EnsureValid (Weapon_Type w) = MeleeWeaponType \<and> Contains (Parry w) CHR ''F''
      then EncumbrancePenalty X (Some entity) tooltip
      else (0, tooltip))"

definition extractSkillBonusForThisWeapon ::
  "Externals \<Rightarrow> Weapon \<Rightarrow> Store \<Rightarrow> Feature \<Rightarrow> fxp \<times> ByteBuffer option \<Rightarrow> fxp \<times> ByteBuffer option" where
  \<comment> \<open>\<open>adj += w.extractSkillBonusForThisWeapon(f, tooltip)\<close> on the pair of \<open>adj\<close> and the buffer\<close>
  "extractSkillBonusForThisWeapon X w s f acc =
     (case acc of (adj, tooltip) \<Rightarrow>
        (case f of
           SkillBonusF r \<Rightarrow>
             (let sb = skillBonuses s r
              in if SkillSelectionType_EnsureValid (sb_SelectionType sb) = ThisWeaponSkillSelectionType
                    \<and> sb_SpecializationCriteria sb (Usage w)
                 then (adj + AdjustedAmount (sb_LeveledAmount sb), SkillBonus_AddToTooltip X sb tooltip)
                 else (adj, tooltip))
         | _ \<Rightarrow> (adj, tooltip)))"

text \<open>
  Modelled from the spec: \<open>Entity.NamedWeaponSkillBonusesFor\<close> (\<open>entity.go\<close> is not among the
  sources): the skill bonuses that the entity enumerates for the name, the usage and the
  tags of the weapon, each asked for its tooltip.
\<close>

definition NamedWeaponSkillBonusesFor ::
  "Externals \<Rightarrow> Entity \<Rightarrow> Store \<Rightarrow> string \<Rightarrow> string \<Rightarrow> string list \<Rightarrow> ByteBuffer option
    \<Rightarrow> ref list \<times> ByteBuffer option" where
  "NamedWeaponSkillBonusesFor X entity s name usage tags tooltip =
     (NamedWeaponSkillBonusRefs entity name usage tags,
      fold (\<lambda>r. SkillBonus_AddToTooltip X (skillBonuses s r))
        (NamedWeaponSkillBonusRefs entity name usage tags) tooltip)"

definition skillLevelBaseAdjustment ::
  "Externals \<Rightarrow> Weapon \<Rightarrow> Entity \<Rightarrow> ByteBuffer option \<Rightarrow> Store \<Rightarrow> fxp \<times> ByteBuffer option \<times> Store" where
  "skillLevelBaseAdjustment X w entity tooltip s =
     (case ResolvedMinimumStrength X w None s of
        (resolved, _, s') \<Rightarrow>
          (let minST = resolved - StrikingStrength entity;
               a0 = (if 0 <s minST
                     then (0 - minST,
                           WriteString (''\<newline>'' @ Weapon_String w @ '' ['' @ fxp_String (- minST)
                              @ i18n_Text X '' to skill level due to minimum ST requirement'' @ '']'')
                             tooltip)
                     else (0, tooltip));
               named = NamedWeaponSkillBonusesFor X entity s' (Weapon_String w) (Usage w)
                         (Owner_TagList w) (snd a0);
               a1 = (fold (\<lambda>r adj. adj + AdjustedAmount (sb_LeveledAmount (skillBonuses s' r)))
                       (fst named) (fst a0), snd named);
               a2 = fold (extractSkillBonusForThisWeapon X w s') (Owner_FeatureList w) a1;
               a3 = fold (\<lambda>m. fold (extractSkillBonusForThisWeapon X w s') (mod_Features m))
                      (Owner_Modifiers w) a2
           in (fst a3, snd a3, s')))"

definition bestLevel :: "Entity \<Rightarrow> fxp \<Rightarrow> SkillDefault \<Rightarrow> fxp \<Rightarrow> fxp" where
  \<comment> \<open>the body of the loop over the defaults in \<open>SkillLevel\<close>\<close>
  "bestLevel pc adj d best =
     (if SkillLevelFast pc d \<noteq> fxp_Min
      then (if best <s SkillLevelFast pc d + adj then SkillLevelFast pc d + adj else best)
      else best)"

definition joinTooltip :: "ByteBuffer option \<Rightarrow> ByteBuffer \<Rightarrow> ByteBuffer" where
  \<comment> \<open>\<open>if part != nil && part.Len() != 0 { if tooltip.Len() != 0 { tooltip.WriteByte('\n') };
     tooltip.WriteString(part.String()) }\<close>\<close>
  "joinTooltip part buf =
     (case part of
        None \<Rightarrow> buf
      | Some p \<Rightarrow> if p \<noteq> [] then (if buf \<noteq> [] then buf @ ''\<newline>'' else buf) @ p else buf)"

definition newBuffer :: "ByteBuffer option \<Rightarrow> ByteBuffer option" where
  \<comment> \<open>\<open>if tooltip != nil { primaryTooltip = &xio.ByteBuffer{} }\<close>\<close>
  "newBuffer tooltip = (case tooltip of None \<Rightarrow> None | Some _ \<Rightarrow> Some [])"

definition SkillLevel ::
  "Externals \<Rightarrow> Weapon \<Rightarrow> ByteBuffer option \<Rightarrow> Store \<Rightarrow> fxp \<times> ByteBuffer option \<times> Store" where
  "SkillLevel X w tooltip s =
     (case Weapon_PC w of
        None \<Rightarrow> (0, tooltip, s)
      | Some pc \<Rightarrow>
          (case skillLevelBaseAdjustment X w pc (newBuffer tooltip) s of
             (preAdj, primary1, s') \<Rightarrow>
               (case skillLevelPostAdjustment X w pc primary1 of
                  (postAdj, primaryTooltip) \<Rightarrow>
                    (let best = fold (bestLevel pc (preAdj + postAdj)) (Defaults w) fxp_Min
                     in if best = fxp_Min then (0, tooltip, s')
                        else (if best <s 0 then 0 else best,
                              map_option (joinTooltip primaryTooltip) tooltip, s')))))"

section \<open>Parry and block\<close>

fun ScanLines :: "string \<Rightarrow> string \<Rightarrow> string list" where
  \<comment> \<open>the tokens of a \<open>bufio.Scanner\<close> with the default split function on the text, the
     first argument being the line read so far; a line ends at a newline or at the end of
     the text, one trailing carriage return is dropped, and no token follows the last
     newline when nothing comes after it (lines within the scanner's token size)\<close>
  "ScanLines cur [] = (if cur = [] then [] else [if last cur = CHR 0x0D then butlast cur else cur])"
| "ScanLines cur (c # cs) =
     (if c = CHR 0x0A
      then (if cur \<noteq> [] \<and> last cur = CHR 0x0D then butlast cur else cur) # ScanLines [] cs
      else ScanLines (cur @ [c]) cs)"

definition parseModifier :: "string \<Rightarrow> (bool \<times> 64 word \<times> string) option" where
  \<comment> \<open>the scan of a line that is not empty: leading blanks, an optional sign, a run of
     digits. \<open>None\<close> when \<open>found\<close> stays false; otherwise \<open>neg\<close>, \<open>modifier\<close> and \<open>line[i:]\<close>\<close>
  "parseModifier line =
     (case dropWhile (\<lambda>c. c = CHR '' '') line of
        [] \<Rightarrow> None
      | ch # r \<Rightarrow>
          (let neg = (ch = CHR ''-'');
               rest = (if ch = CHR ''-'' \<or> ch = CHR ''+'' then r else ch # r);
               ds = takeWhile isDigit rest
           in if ds = [] then None
              else Some (neg, foldl (\<lambda>m c. m * 10 + of_nat (digitValue c)) 0 ds,
                         dropWhile isDigit rest)))"

definition candidateLevel ::
  "Externals \<Rightarrow> Entity \<Rightarrow> string \<Rightarrow> fxp \<Rightarrow> fxp \<Rightarrow> fxp \<Rightarrow> ByteBuffer option \<Rightarrow> SkillDefault
    \<Rightarrow> (fxp \<times> ByteBuffer option) option" where
  \<comment> \<open>the body of the loop over the defaults in \<open>resolvedValue\<close> up to the comparison with
     \<open>best\<close>: \<open>None\<close> is \<open>continue\<close>, otherwise \<open>level\<close> and \<open>possibleTooltip\<close>\<close>
  "candidateLevel X pc baseDefaultType preAdj postAdj adj tooltip d =
     (if SkillLevelFast pc d = fxp_Min then None
      else (let level1 = SkillLevelFast pc d + preAdj;
                level2 = (if baseDefaultType \<noteq> DefaultType d
                          then Trunc (Div level1 fxp_Two + adj) else level1);
                level3 = level2 + postAdj
            in if DefaultType d = SkillID \<and> Name d = ''Karate''
               then (case EncumbrancePenalty X (Some pc) (newBuffer tooltip) of
                       (penalty, possibleTooltip) \<Rightarrow> Some (level3 + penalty, possibleTooltip))
               else Some (level3, None)))"

definition bestCandidate ::
  "Externals \<Rightarrow> Entity \<Rightarrow> string \<Rightarrow> fxp \<Rightarrow> fxp \<Rightarrow> fxp \<Rightarrow> ByteBuffer option \<Rightarrow> SkillDefault
    \<Rightarrow> fxp \<times> ByteBuffer option \<Rightarrow> fxp \<times> ByteBuffer option" where
  "bestCandidate X pc baseDefaultType preAdj postAdj adj tooltip d acc =
     (case candidateLevel X pc baseDefaultType preAdj postAdj adj tooltip d of
        None \<Rightarrow> acc
      | Some (level, possibleTooltip) \<Rightarrow>
          if fst acc <s level then (level, possibleTooltip) else acc)"

definition resolveSkillLevel ::
  "Externals \<Rightarrow> Weapon \<Rightarrow> Entity \<Rightarrow> string \<Rightarrow> ByteBuffer option \<Rightarrow> Store
    \<Rightarrow> fxp \<times> ByteBuffer option \<times> Store" where
  \<comment> \<open>the block under \<open>if skillLevel == fxp.Max\<close>: the new \<open>skillLevel\<close>, buffer and store\<close>
  "resolveSkillLevel X w pc baseDefaultType tooltip s =
     (case skillLevelBaseAdjustment X w pc (newBuffer tooltip) s of
        (preAdj, primary1, s') \<Rightarrow>
          (case skillLevelPostAdjustment X w pc primary1 of
             (postAdj, primaryTooltip) \<Rightarrow>
               (let adj = fxp_Three + (if baseDefaultType = ParryID then ParryBonus pc else BlockBonus pc);
                    (best, secondaryTooltip) =
                       fold (bestCandidate X pc baseDefaultType preAdj postAdj adj tooltip)
                         (Defaults w) (fxp_Min, None)
                in (fxp_max best 0,
                    if best \<noteq> fxp_Min
                    then map_option (\<lambda>buf. joinTooltip secondaryTooltip (joinTooltip primaryTooltip buf))
                           tooltip
                    else tooltip,
                    s'))))"

definition resolveLine ::
  "Externals \<Rightarrow> Weapon \<Rightarrow> Entity \<Rightarrow> string \<Rightarrow> string
    \<Rightarrow> string \<times> fxp \<times> ByteBuffer option \<times> Store \<Rightarrow> string \<times> fxp \<times> ByteBuffer option \<times> Store" where
  \<comment> \<open>one round of the loop over the lines, on \<open>buffer\<close>, \<open>skillLevel\<close>, the tooltip and the store\<close>
  "resolveLine X w pc baseDefaultType line st =
     (case st of (buffer, skillLevel, tooltip, s) \<Rightarrow>
        (let buffer1 = (if buffer \<noteq> [] then buffer @ ''\<newline>'' else buffer)
         in case (if line \<noteq> [] then parseModifier line else None) of
              None \<Rightarrow> (buffer1 @ line, skillLevel, tooltip, s)
            | Some (neg, modifier, rest) \<Rightarrow>
                (case (if skillLevel = fxp_Max
                       then resolveSkillLevel X w pc baseDefaultType tooltip s
                       else (skillLevel, tooltip, s)) of
                   (skillLevel', tooltip', s') \<Rightarrow>
                     (buffer1
                        @ fxp_String (Trunc (skillLevel' + fxp_From (if neg then - modifier else modifier)))
                        @ rest,
                      skillLevel', tooltip', s'))))"

definition resolvedValue ::
  "Externals \<Rightarrow> Weapon \<Rightarrow> string \<Rightarrow> string \<Rightarrow> ByteBuffer option \<Rightarrow> Store
    \<Rightarrow> string \<times> ByteBuffer option \<times> Store" where
  "resolvedValue X w input baseDefaultType tooltip s =
     (case Weapon_PC w of
        None \<Rightarrow> (input, tooltip, s)
      | Some pc \<Rightarrow>
          (case fold (resolveLine X w pc baseDefaultType) (ScanLines [] input) ([], fxp_Max, tooltip, s) of
             (buffer, _, tooltip', s') \<Rightarrow> (buffer, tooltip', s')))"

definition ResolvedParry ::
  "Externals \<Rightarrow> Weapon \<Rightarrow> ByteBuffer option \<Rightarrow> Store \<Rightarrow> string \<times> ByteBuffer option \<times> Store" where
  "ResolvedParry X w tooltip s = resolvedValue X w (Parry w) ParryID tooltip s"

definition ResolvedBlock ::
  "Externals \<Rightarrow> Weapon \<Rightarrow> ByteBuffer option \<Rightarrow> Store \<Rightarrow> string \<times> ByteBuffer option \<times> Store" where
  "ResolvedBlock X w tooltip s = resolvedValue X w (Block w) BlockID tooltip s"

section \<open>Attribute prerequisites (attribute\_prereq.go)\<close>

record NumericCriteria =
  nc_Matches :: "fxp \<Rightarrow> bool"
  nc_String :: string

record AttributePrereq =
  Has :: bool
  CombinedWith :: string
  QualifierCriteria :: NumericCriteria
  Which :: string

definition Satisfied ::
  "Externals \<Rightarrow> AttributePrereq \<Rightarrow> Entity \<Rightarrow> ByteBuffer option \<Rightarrow> string \<Rightarrow> bool \<times> ByteBuffer option" where
  "Satisfied X p entity tooltip prefix =
     (let v = ResolveAttributeCurrent entity (Which p)
                + (if CombinedWith p \<noteq> [] then ResolveAttributeCurrent entity (CombinedWith p) else 0);
          satisfied = (if Has p then nc_Matches (QualifierCriteria p) v
                       else \<not> nc_Matches (QualifierCriteria p) v)
      in (satisfied,
          if \<not> satisfied
          then WriteString
                 (prefix @ HasText X (Has p) @ '' '' @ ResolveAttributeName entity (Which p)
                  @ (if CombinedWith p \<noteq> []
                     then ''+'' @ ResolveAttributeName entity (CombinedWith p) else [])
                  @ i18n_Text X '' which '' @ nc_String (QualifierCriteria p))
                 tooltip
          else tooltip))"

section \<open>Example values\<close>

definition plainEntity :: Entity where
  \<comment> \<open>a PC with Strength 10 (striking strength 10, throwing strength 8), no encumbrance,
     no skills and no bonuses\<close>
  "plainEntity =
     \<lparr>Entity_Type = PC, StrikingStrength = fxp_From 10, ThrowingStrength = fxp_From 8,
      EncumbrancePenaltyValue = 0, ParryBonus = 0, BlockBonus = 0,
      SkillLevelFast = (\<lambda>d. fxp_Min),
      NamedWeaponSkillBonusRefs = (\<lambda>name usage tags. []),
      WeaponWithSkillBonusRefs = (\<lambda>name specialization tags. []),
      NamedWeaponBonusRefs = (\<lambda>name usage tags. []),
      ResolveAttributeCurrent = (\<lambda>attr. fxp_From 10),
      ResolveAttributeName = (\<lambda>attr. attr)\<rparr>"

definition plainOwner :: WeaponOwner where
  \<comment> \<open>an equipment item of \<open>plainEntity\<close> without features, modifiers or rated strength\<close>
  "plainOwner =
     \<lparr>owner_Kind = EquipmentOwner, OwningEntity = Some plainEntity, Description = ''Sling'',
      FeatureList = [], TagList = [], RatedStrength = 0, Modifiers = []\<rparr>"

definition plainWeapon :: Weapon where
  "plainWeapon =
     \<lparr>Weapon_Type = RangedWeaponType, Jet = False, Usage = [], Parry = [], Block = [],
      Range = ''10/x3'', WeaponAcc = 0, ScopeAcc = 0, MinST = 0, Defaults = [],
      Owner = Some plainOwner\<rparr>"

definition noExternals :: Externals where
  "noExternals =
     \<lparr>DerivedLevel = (\<lambda>b. 0), WeaponBonusTooltip = (\<lambda>b. ''\<newline>bonus''),
      SkillBonusTooltip = (\<lambda>b. ''\<newline>skill bonus''), SkillBased = (\<lambda>d. DefaultType d = SkillID),
      i18n_Text = (\<lambda>t. t), HasText = (\<lambda>h. if h then ''Has'' else ''Does not have''),
      ResolveBoolFlag = (\<lambda>w t initial. initial)\<rparr>"

definition emptyStore :: Store where
  "emptyStore =
     \<lparr>weaponBonuses = (\<lambda>r. \<lparr>wb_Type = WeaponBonusFeatureType,
                              wb_SelectionType = ThisWeaponWeaponSelectionType,
                              wb_NameCriteria = (\<lambda>n. True), wb_SpecializationCriteria = (\<lambda>n. True),
                              wb_TagsCriteria = (\<lambda>t. True),
                              wb_LeveledAmount = \<lparr>Level = 0, Amount = 0, PerLevel = False\<rparr>,
                              wb_SubOwner = None\<rparr>),
      skillBonuses = (\<lambda>r. \<lparr>sb_SelectionType = ThisWeaponSkillSelectionType,
                             sb_SpecializationCriteria = (\<lambda>n. True),
                             sb_LeveledAmount = \<lparr>Level = 0, Amount = 0, PerLevel = False\<rparr>,
                             sb_SubOwner = None\<rparr>),
      otherSubOwners = (\<lambda>r. None), errLog = []\<rparr>"

definition unownedWeapon :: Weapon where
  "unownedWeapon = plainWeapon\<lparr>Parry := ''+2F'', Block := ''-1'', Owner := None\<rparr>"

definition looseWeapon :: Weapon where
  "looseWeapon = unownedWeapon\<lparr>Owner := Some (plainOwner\<lparr>OwningEntity := None\<rparr>)\<rparr>"

definition npcWeapon :: Weapon where
  "npcWeapon = unownedWeapon\<lparr>Owner :=
      Some (plainOwner\<lparr>OwningEntity := Some (plainEntity\<lparr>Entity_Type := OtherEntityType\<rparr>)\<rparr>)\<rparr>"

definition strengthPrereq :: AttributePrereq where
  "strengthPrereq =
     \<lparr>Has = True, CombinedWith = [],
      QualifierCriteria = \<lparr>nc_Matches = (\<lambda>v. fxp_From 12 \<le>s v), nc_String = ''at least 12''\<rparr>,
      Which = ''st''\<rparr>"

definition rendersBonus :: "Externals \<Rightarrow> Store \<Rightarrow> ref \<Rightarrow> string \<Rightarrow> bool" where
  \<comment> \<open>\<open>txt\<close> is the tooltip text of the bonus \<open>r\<close> of the store, at some level and with
     some sub-owner\<close>
  "rendersBonus X s r txt \<longleftrightarrow>
     (\<exists>lvl so. txt = WeaponBonusTooltip X (setLevel lvl ((weaponBonuses s r)\<lparr>wb_SubOwner := so\<rparr>)))"

definition subOwnersWritten :: "Modifier list \<Rightarrow> Store \<Rightarrow> Store \<Rightarrow> bool" where
  \<comment> \<open>the second store is the first one, but for the sub-owner of bonus features of the
     modifiers, which may have been set to their modifier, and for the log\<close>
  "subOwnersWritten ms s s' \<longleftrightarrow>
     (\<forall>r. weaponBonuses s' r = weaponBonuses s r
          \<or> (\<exists>m. m \<in> set ms \<and> WeaponBonusF r \<in> set (mod_Features m)
                 \<and> weaponBonuses s' r = (weaponBonuses s r)\<lparr>wb_SubOwner := Some (mod_ID m)\<rparr>))
     \<and> (\<forall>r. skillBonuses s' r = skillBonuses s r
          \<or> (\<exists>m. m \<in> set ms \<and> SkillBonusF r \<in> set (mod_Features m)
                 \<and> skillBonuses s' r = (skillBonuses s r)\<lparr>sb_SubOwner := Some (mod_ID m)\<rparr>))
     \<and> (\<forall>r. otherSubOwners s' r = otherSubOwners s r
          \<or> (\<exists>m t. m \<in> set ms \<and> OtherBonusF r t \<in> set (mod_Features m)
                 \<and> otherSubOwners s' r = Some (mod_ID m)))"

definition collected ::
  "Externals \<Rightarrow> FeatureType set \<Rightarrow> Store \<Rightarrow> ByteBuffer option \<Rightarrow> ref list \<times> ByteBuffer option \<Rightarrow> bool" where
  \<comment> \<open>the set holds no bonus twice and bonuses of the allowed types only, and the buffer
     is the first buffer followed by one tooltip text for each bonus of the set, in the
     order of the set\<close>
  "collected X A s tooltip0 acc \<longleftrightarrow>
     distinct (fst acc)
     \<and> list_all (\<lambda>r. wb_Type (weaponBonuses s r) \<in> A) (fst acc)
     \<and> (\<exists>txts. list_all2 (rendersBonus X s) (fst acc) txts
               \<and> snd acc = map_option (\<lambda>buf. buf @ concat txts) tooltip0)"

definition selects :: "Weapon \<Rightarrow> WeaponBonus \<Rightarrow> bool" where
  \<comment> \<open>the bonus passes the test that \<open>extractWeaponBonus\<close> makes for its selection type\<close>
  "selects w bonus =
     (case wb_SelectionType bonus of
        ThisWeaponWeaponSelectionType \<Rightarrow> wb_SpecializationCriteria bonus (Usage w)
      | WithNameWeaponSelectionType \<Rightarrow>
          wb_NameCriteria bonus (Weapon_String w) \<and> wb_SpecializationCriteria bonus (Usage w)
          \<and> wb_TagsCriteria bonus (Owner_TagList w)
      | _ \<Rightarrow> False)"

definition featureBonuses :: "Weapon \<Rightarrow> FeatureType set \<Rightarrow> Store \<Rightarrow> Feature list \<Rightarrow> ref list" where
  \<comment> \<open>the weapon bonuses among the features that are of an allowed type and select the
     weapon, one entry for each occurrence\<close>
  "featureBonuses w A s fs =
     concat (map (\<lambda>f. case f of
                        WeaponBonusF r \<Rightarrow>
                          if wb_Type (weaponBonuses s r) \<in> A \<and> selects w (weaponBonuses s r)
                          then [r] else []
                      | _ \<Rightarrow> []) fs)"

definition reachedBonuses :: "Externals \<Rightarrow> Weapon \<Rightarrow> FeatureType list \<Rightarrow> Store \<Rightarrow> ref list" where
  \<comment> \<open>every occurrence of a bonus on a path of the traversal of \<open>collectWeaponBonuses\<close>, a
     bonus that is met on two paths being listed twice: the bonuses of the entity for the
     best skill default, those of the entity for the name of the weapon, the features of
     the owner, the features of each of its modifiers\<close>
  "reachedBonuses X w allowed s =
     (case Weapon_PC w of
        None \<Rightarrow> []
      | Some pc \<Rightarrow>
          filter (\<lambda>r. wb_Type (weaponBonuses s r) \<in> set allowed)
            ((case snd (bestSkillDefault X pc (Defaults w) (fxp_Min, None)) of
                None \<Rightarrow> []
              | Some d \<Rightarrow> WeaponWithSkillBonusRefs pc (Name d) (Specialization d) (Owner_TagList w))
             @ NamedWeaponBonusRefs pc (Weapon_String w) (Usage w) (Owner_TagList w))
          @ featureBonuses w (set allowed) s
              (Owner_FeatureList w @ concat (map mod_Features (Owner_Modifiers w))))"

definition isOtherBonus :: "ref \<Rightarrow> Feature \<Rightarrow> bool" where
  \<comment> \<open>the feature is the bonus \<open>r\<close>, a \<open>Bonus\<close> that is neither a weapon nor a skill bonus\<close>
  "isOtherBonus r f = (case f of OtherBonusF r' t \<Rightarrow> r' = r | _ \<Rightarrow> False)"

fun lastModifierWith :: "(Feature \<Rightarrow> bool) \<Rightarrow> Modifier list \<Rightarrow> ref option" where
  \<comment> \<open>the last modifier of the list that has a feature of the given kind\<close>
  "lastModifierWith P [] = None"
| "lastModifierWith P (m # ms) =
     (case lastModifierWith P ms of
        Some i \<Rightarrow> Some i
      | None \<Rightarrow> if list_ex P (mod_Features m) then Some (mod_ID m) else None)"

definition traversedModifiers :: "Weapon \<Rightarrow> Modifier list" where
  \<comment> \<open>the modifiers that a call of \<open>collectWeaponBonuses\<close> traverses: none without a PC\<close>
  "traversedModifiers w = (case Weapon_PC w of None \<Rightarrow> [] | Some pc \<Rightarrow> Owner_Modifiers w)"

definition tellingExternals :: Externals where
  \<comment> \<open>as \<open>noExternals\<close>, with a tooltip line that names the sub-owner of the bonus\<close>
  "tellingExternals = noExternals\<lparr>WeaponBonusTooltip :=
     (\<lambda>b. case wb_SubOwner b of None \<Rightarrow> ''\<newline>item'' | Some m \<Rightarrow> ''\<newline>modifier '' @ digits m)\<rparr>"

definition plusOneStore :: Store where
  \<comment> \<open>every weapon bonus is a +1 "this weapon" damage bonus without a sub-owner\<close>
  "plusOneStore = emptyStore\<lparr>weaponBonuses :=
     (\<lambda>r. (weaponBonuses emptyStore r)\<lparr>wb_LeveledAmount := \<lparr>Level = 0, Amount = fxp_From 1, PerLevel = False\<rparr>\<rparr>)\<rparr>"

definition twoModifiersWeapon :: Weapon where
  \<comment> \<open>the owner is an equipment with two modifiers, each with its own bonus\<close>
  "twoModifiersWeapon = plainWeapon\<lparr>Owner := Some (plainOwner\<lparr>Modifiers :=
     [\<lparr>mod_ID = 7, mod_Features = [WeaponBonusF 1]\<rparr>, \<lparr>mod_ID = 8, mod_Features = [WeaponBonusF 2]\<rparr>]\<rparr>)\<rparr>"

definition twoPathsWeapon :: Weapon where
  \<comment> \<open>one bonus is a feature of the equipment and of its modifier\<close>
  "twoPathsWeapon = plainWeapon\<lparr>Owner := Some (plainOwner\<lparr>FeatureList := [WeaponBonusF 1],
     Modifiers := [\<lparr>mod_ID = 7, mod_Features = [WeaponBonusF 1]\<rparr>]\<rparr>)\<rparr>"

definition sameListWeapon :: Weapon where
  \<comment> \<open>two bonuses are features of the equipment itself\<close>
  "sameListWeapon = plainWeapon\<lparr>Owner := Some (plainOwner\<lparr>FeatureList :=
     [WeaponBonusF 1, WeaponBonusF 2]\<rparr>)\<rparr>"

definition oneModifierWeapon :: Weapon where
  \<comment> \<open>the owner is an equipment with one modifier, which has two bonuses\<close>
  "oneModifierWeapon = plainWeapon\<lparr>Owner := Some (plainOwner\<lparr>Modifiers :=
     [\<lparr>mod_ID = 7, mod_Features = [WeaponBonusF 1, WeaponBonusF 2]\<rparr>]\<rparr>)\<rparr>"

definition requiredSkillStore :: Store where
  \<comment> \<open>every weapon bonus has the selection type "with required skill"\<close>
  "requiredSkillStore = emptyStore\<lparr>weaponBonuses :=
     (\<lambda>r. (weaponBonuses emptyStore r)\<lparr>wb_SelectionType := WithRequiredSkillWeaponSelectionType\<rparr>)\<rparr>"

definition unknownSelectionStore :: Store where
  \<comment> \<open>every weapon bonus has a selection type of raw value 9, which is no constant\<close>
  "unknownSelectionStore = emptyStore\<lparr>weaponBonuses :=
     (\<lambda>r. (weaponBonuses emptyStore r)\<lparr>wb_SelectionType := UnknownWeaponSelectionType 9\<rparr>)\<rparr>"

definition minSTStore :: Store where
  \<comment> \<open>every weapon bonus is a +1 "this weapon" bonus to the minimum ST\<close>
  "minSTStore = plusOneStore\<lparr>weaponBonuses :=
     (\<lambda>r. (weaponBonuses plusOneStore r)\<lparr>wb_Type := WeaponMinSTBonusFeatureType\<rparr>)\<rparr>"

definition ratedOwner :: WeaponOwner where
  "ratedOwner = plainOwner\<lparr>RatedStrength := fxp_From 11\<rparr>"

definition ratedWeapon :: Weapon where
  \<comment> \<open>a weapon with stored minimum ST 13 on an owner with rated strength 11\<close>
  "ratedWeapon = twoModifiersWeapon\<lparr>MinST := fxp_From 13, Owner := Some ratedOwner\<rparr>"

definition heavyWeapon :: Weapon where
  \<comment> \<open>a weapon with stored minimum ST 12 on an equipment with two modifiers\<close>
  "heavyWeapon = twoModifiersWeapon\<lparr>MinST := fxp_From 12\<rparr>"

definition thisWeaponSkillBonus :: "Weapon \<Rightarrow> Store \<Rightarrow> Feature \<Rightarrow> fxp" where
  \<comment> \<open>what a feature adds to the skill level as a "this weapon" skill bonus\<close>
  "thisWeaponSkillBonus w s f =
     (case f of
        SkillBonusF r \<Rightarrow>
          if SkillSelectionType_EnsureValid (sb_SelectionType (skillBonuses s r)) = ThisWeaponSkillSelectionType
             \<and> sb_SpecializationCriteria (skillBonuses s r) (Usage w)
          then AdjustedAmount (sb_LeveledAmount (skillBonuses s r)) else 0
      | _ \<Rightarrow> 0)"

definition skillBonusTotal :: "Weapon \<Rightarrow> Entity \<Rightarrow> Store \<Rightarrow> fxp" where
  \<comment> \<open>the named-weapon skill bonuses of the entity and the "this weapon" skill bonuses of
     the owner and of its modifiers, added up\<close>
  "skillBonusTotal w entity s =
     sum_list (map (\<lambda>r. AdjustedAmount (sb_LeveledAmount (skillBonuses s r)))
                 (NamedWeaponSkillBonusRefs entity (Weapon_String w) (Usage w) (Owner_TagList w)))
     + sum_list (map (thisWeaponSkillBonus w s) (Owner_FeatureList w))
     + sum_list (map (thisWeaponSkillBonus w s) (concat (map mod_Features (Owner_Modifiers w))))"

definition applicableLevels :: "Entity \<Rightarrow> fxp \<Rightarrow> SkillDefault list \<Rightarrow> fxp list" where
  \<comment> \<open>the adjusted levels of the defaults that do not resolve to the sentinel \<open>fxp.Min\<close>\<close>
  "applicableLevels pc adj ds =
     map (\<lambda>d. SkillLevelFast pc d + adj) (filter (\<lambda>d. SkillLevelFast pc d \<noteq> fxp_Min) ds)"

definition swordEntity :: Entity where
  \<comment> \<open>\<open>plainEntity\<close> with the skill Broadsword at level 14\<close>
  "swordEntity = plainEntity\<lparr>SkillLevelFast :=
     (\<lambda>d. if DefaultType d = SkillID \<and> Name d = ''Broadsword'' then fxp_From 14 else fxp_Min)\<rparr>"

definition swordWeapon :: Weapon where
  \<comment> \<open>a melee weapon of \<open>swordEntity\<close> that requires minimum strength 12 and defaults to
     Broadsword and to Shortsword\<close>
  "swordWeapon =
     plainWeapon\<lparr>Weapon_Type := MeleeWeaponType, Parry := ''0'', Range := [], MinST := fxp_From 12,
       Defaults := [\<lparr>DefaultType = SkillID, Name = ''Shortsword'', Specialization = []\<rparr>,
                    \<lparr>DefaultType = SkillID, Name = ''Broadsword'', Specialization = []\<rparr>],
       Owner := Some (plainOwner\<lparr>OwningEntity := Some swordEntity\<rparr>)\<rparr>"



section \<open>Properties\<close>

definition countX :: "string \<Rightarrow> nat" where
  \<comment> \<open>how many times the byte \<open>x\<close> occurs: what the loop of \<open>ResolvedRange\<close> uses up\<close>
  "countX s = length (filter (\<lambda>c. c = CHR ''x'') s)"

subsection \<open>Range resolution reaches a fixed point\<close>

lemma digitChar_not_x: "d < 10 \<Longrightarrow> digitChar d \<noteq> CHR ''x''"
  unfolding digitChar_def
  by (cases "d = 0"; cases "d = 1"; cases "d = 2"; cases "d = 3"; cases "d = 4";
      cases "d = 5"; cases "d = 6"; cases "d = 7"; cases "d = 8"; cases "d = 9") simp_all

lemma digits_no_x: "CHR ''x'' \<notin> set (digits n)"
proof (induction n rule: digits.induct)
  case (1 n)
  show ?case
  proof (cases "n < 10")
    case True
    then show ?thesis using digitChar_not_x [of n] by (subst digits.simps) auto
  next
    case False
    then show ?thesis using 1 digitChar_not_x [of "n mod 10"]
      by (subst digits.simps) auto
  qed
qed

lemma FormatInt_no_x: "CHR ''x'' \<notin> set (FormatInt i)"
  by (simp add: FormatInt_def digits_no_x)

lemma trimmed_no_x:
  assumes "CHR ''x'' \<notin> set s"
  shows "CHR ''x'' \<notin> set (rev (dropWhile (\<lambda>c. c = CHR ''0'') (rev (tl s))))"
proof
  assume "CHR ''x'' \<in> set (rev (dropWhile (\<lambda>c. c = CHR ''0'') (rev (tl s))))"
  then have "CHR ''x'' \<in> set (dropWhile (\<lambda>c. c = CHR ''0'') (rev (tl s)))" by simp
  then have "CHR ''x'' \<in> set (rev (tl s))" by (rule set_dropWhileD)
  then have "CHR ''x'' \<in> set (tl s)" by simp
  then have "CHR ''x'' \<in> set s" by (cases s) auto
  with assms show False by simp
qed

lemma fxp_String_no_x: "CHR ''x'' \<notin> set (fxp_String f)"
  unfolding fxp_String_def Let_def
  using trimmed_no_x [OF FormatInt_no_x] by (simp add: FormatInt_no_x)

lemma countX_append [simp]: "countX (a @ b) = countX a + countX b"
  by (simp add: countX_def)

lemma countX_zero: "CHR ''x'' \<notin> set s \<Longrightarrow> countX s = 0"
  by (induction s) (auto simp: countX_def)

lemma IndexByte_Some:
  assumes "IndexByte s c = Some i"
  shows "i < length s" and "s ! i = c" and "c \<notin> set (take i s)"
proof -
  from assms have c: "c \<in> set s" and i: "i = length (takeWhile (\<lambda>d. d \<noteq> c) s)"
    by (auto simp: IndexByte_def split: if_splits)
  have "length (takeWhile (\<lambda>d. d \<noteq> c) s) < length s
        \<and> s ! length (takeWhile (\<lambda>d. d \<noteq> c) s) = c"
    using c by (induction s) auto
  then show "i < length s" and "s ! i = c" using i by auto
  show "c \<notin> set (take i s)" using i
    by (metis (mono_tags, lifting) set_takeWhileD takeWhile_eq_take)
qed

lemma replaced_fewer_x:
  assumes ib: "IndexByte s CHR ''x'' = Some wh" and k: "Suc wh \<le> k"
    and str: "CHR ''x'' \<notin> set str"
  shows "countX ((if wh > 0 then take wh s else []) @ str @ (if k < length s then drop k s else []))
         < countX s"
proof -
  note f = IndexByte_Some [OF ib]
  have split: "s = take wh s @ CHR ''x'' # drop (Suc wh) s"
    using f(1,2) by (metis id_take_nth_drop)
  have pre: "countX (take wh s) = 0" using f(3) by (rule countX_zero)
  have "countX s = countX (take wh s) + countX (CHR ''x'' # drop (Suc wh) s)"
    by (subst split) (simp only: countX_append)
  moreover have "countX (CHR ''x'' # t) = Suc (countX t)" for t
    by (simp add: countX_def)
  ultimately have whole: "countX s = Suc (countX (drop (Suc wh) s))"
    by (simp add: pre)
  have "drop k s = drop (k - Suc wh) (drop (Suc wh) s)" using k by simp
  moreover have "countX (drop j t) \<le> countX t" for j t
    by (metis append_take_drop_id countX_append le_add2)
  ultimately have le: "countX (drop k s) \<le> countX (drop (Suc wh) s)" by metis
  have e: "countX [] = 0" by (simp add: countX_def)
  have "countX ((if wh > 0 then take wh s else []) @ str @ (if k < length s then drop k s else []))
        \<le> countX (drop k s)"
    by (simp add: pre countX_zero [OF str] e)
  with le show ?thesis unfolding whole by linarith
qed

lemma resolveRange_decreases:
  "resolveRange s st = s \<or> countX (resolveRange s st) < countX s"
proof (cases "IndexByte s CHR ''x''")
  case None
  then show ?thesis by (simp add: resolveRange_def)
next
  case (Some wh)
  define last0 where "last0 = (if wh + 1 < length s \<and> s ! (wh + 1) = CHR '' '' then wh + 2 else wh + 1)"
  define n where "n = scanNumber False (drop last0 s)"
  have k: "Suc wh \<le> last0 + n" by (simp add: last0_def)
  have unf: "resolveRange s st =
      (if last0 \<ge> length s then s
       else if n = 0 then s
       else (case fxp_FromString (take n (drop last0 s)) of
               None \<Rightarrow> s
             | Some v \<Rightarrow> (if wh > 0 then take wh s else []) @ fxp_String (Trunc (Mul v st))
                         @ (if last0 + n < length s then drop (last0 + n) s else [])))"
    by (simp only: resolveRange_def Some option.case Let_def last0_def [symmetric]
        n_def [symmetric] if_not_P if_P split: if_splits)
  show ?thesis
  proof (cases "fxp_FromString (take n (drop last0 s))")
    case None
    then show ?thesis by (simp only: unf option.case if_cancel simp_thms)
  next
    case (Some v)
    show ?thesis
    proof (cases "last0 \<ge> length s \<or> n = 0")
      case True
      then have "resolveRange s st = s" unfolding unf by auto
      then show ?thesis by simp
    next
      case False
      then have "resolveRange s st = (if wh > 0 then take wh s else [])
                   @ fxp_String (Trunc (Mul v st))
                   @ (if last0 + n < length s then drop (last0 + n) s else [])"
        by (simp add: unf Some)
      then show ?thesis
        using replaced_fewer_x [OF \<open>IndexByte s CHR ''x'' = Some wh\<close> k fxp_String_no_x] by simp
    qed
  qed
qed

lemma rangeLoop_terminates:
  "\<exists>r. rangeLoop st savedRange calcRange = Some r
       \<and> (calcRange = savedRange \<and> r = calcRange \<or> resolveRange r st = r)"
proof (induction "countX calcRange" arbitrary: savedRange calcRange rule: less_induct)
  case less
  show ?case
  proof (cases "calcRange = savedRange")
    case True
    then show ?thesis by (subst rangeLoop.simps) simp
  next
    case False
    show ?thesis
    proof (cases "resolveRange calcRange st = calcRange")
      case True
      have "rangeLoop st calcRange (resolveRange calcRange st) = Some calcRange"
        by (subst rangeLoop.simps) (simp add: True)
      then have "rangeLoop st savedRange calcRange = Some calcRange"
        using False by (subst rangeLoop.simps) simp
      then show ?thesis using True by simp
    next
      case ne: False
      then have "countX (resolveRange calcRange st) < countX calcRange"
        using resolveRange_decreases [of calcRange st] by simp
      from less [OF this, of calcRange]
      obtain r where r: "rangeLoop st calcRange (resolveRange calcRange st) = Some r"
        and fp: "resolveRange r st = r" using ne by auto
      have "rangeLoop st savedRange calcRange = Some r"
        using False r by (subst rangeLoop.simps) simp
      then show ?thesis using fp by simp
    qed
  qed
qed

lemma rangeLoop_fixed:
  assumes "resolveRange r st = r"
  shows "rangeLoop st [] r = Some r"
proof (cases "r = []")
  case True
  then show ?thesis by (subst rangeLoop.simps) simp
next
  case False
  have "rangeLoop st r (resolveRange r st) = Some r"
    by (subst rangeLoop.simps) (simp add: assms)
  then show ?thesis using False by (subst rangeLoop.simps) simp
qed

lemma resolveRange_Nil: "resolveRange [] st = []"
  by (simp add: resolveRange_def IndexByte_def)

lemma effectiveStrength_Range [simp]:
  "effectiveStrength (w\<lparr>Range := r\<rparr>) = effectiveStrength w"
  by (simp add: effectiveStrength_def Weapon_PC_def Weapon_Entity_def Let_def)

lemma resolveRange_example: "resolveRange ''10/x3'' (fxp_From 8) = ''10/24''"
  by (simp add: resolveRange_def IndexByte_def fxp_FromString_def ParseInt_def isDigit_def
      digitsValue_def digitValue_def Multiplier_def Mul_def Trunc_def quo_def rem_def fxp_From_def
      fxp_String_def FormatInt_def digits.simps digitChar_def signed_divide_int_def
      signed_modulo_int_def)

lemma resolveRange_example2: "resolveRange ''10/24'' (fxp_From 8) = ''10/24''"
  by (simp add: resolveRange_def IndexByte_def)

lemma rangeLoop_example: "rangeLoop (fxp_From 8) [] ''10/x3'' = Some ''10/24''"
  apply (subst rangeLoop.simps)
  apply (simp add: resolveRange_example)
  apply (subst rangeLoop.simps)
  apply (simp add: resolveRange_example2)
  apply (subst rangeLoop.simps)
  apply simp
  done

text \<open>
  Claim C7. The loop of \<open>ResolvedRange\<close> terminates for every weapon: it returns a text
  \<open>r\<close>. When the effective strength is not zero (in particular when it is positive), \<open>r\<close>
  is a fixed point of \<open>resolveRange\<close>, and resolving a weapon whose range text is \<open>r\<close>
  returns \<open>r\<close> again. The range text "10/x3" with effective strength 8 resolves to
  "10/24".
\<close>

theorem ResolvedRange_fixed_point:
  "(\<exists>r. ResolvedRange w = Some r
        \<and> (effectiveStrength w \<noteq> 0 \<longrightarrow> resolveRange r (effectiveStrength w) = r)
        \<and> ResolvedRange (w\<lparr>Range := r\<rparr>) = Some r)
   \<and> (Range w = ''10/x3'' \<and> effectiveStrength w = fxp_From 8
        \<longrightarrow> ResolvedRange w = Some ''10/24'')"
proof (intro conjI impI)
  show "\<exists>r. ResolvedRange w = Some r
        \<and> (effectiveStrength w \<noteq> 0 \<longrightarrow> resolveRange r (effectiveStrength w) = r)
        \<and> ResolvedRange (w\<lparr>Range := r\<rparr>) = Some r"
  proof (cases "effectiveStrength w = 0")
    case True
    then show ?thesis by (simp add: ResolvedRange_def)
  next
    case False
    obtain r where r: "rangeLoop (effectiveStrength w) [] (Range w) = Some r"
      and d: "Range w = [] \<and> r = Range w \<or> resolveRange r (effectiveStrength w) = r"
      using rangeLoop_terminates [of "effectiveStrength w" "[]" "Range w"] by blast
    from d have fp: "resolveRange r (effectiveStrength w) = r"
      by (auto simp: resolveRange_Nil)
    show ?thesis
      using False r fp rangeLoop_fixed [OF fp] by (simp add: ResolvedRange_def)
  qed
next
  assume "Range w = ''10/x3'' \<and> effectiveStrength w = fxp_From 8"
  moreover have "fxp_From 8 \<noteq> 0" by (simp add: fxp_From_def Multiplier_def)
  ultimately show "ResolvedRange w = Some ''10/24''"
    by (simp add: ResolvedRange_def rangeLoop_example)
qed

theorem ResolvedRange_fixed_point_witness:
  "effectiveStrength plainWeapon \<noteq> 0
   \<and> Range plainWeapon = ''10/x3'' \<and> effectiveStrength plainWeapon = fxp_From 8
   \<and> (\<exists>r. ResolvedRange plainWeapon = Some r
          \<and> resolveRange r (effectiveStrength plainWeapon) = r
          \<and> ResolvedRange (plainWeapon\<lparr>Range := r\<rparr>) = Some r)
   \<and> ResolvedRange plainWeapon = Some ''10/24''"
proof -
  have st: "effectiveStrength plainWeapon = fxp_From 8"
    by (simp add: effectiveStrength_def plainWeapon_def plainOwner_def plainEntity_def
        Weapon_PC_def Weapon_Entity_def)
  have ne: "fxp_From 8 \<noteq> 0" by (simp add: fxp_From_def Multiplier_def)
  have rg: "Range plainWeapon = ''10/x3''" by (simp add: plainWeapon_def)
  show ?thesis
    using ResolvedRange_fixed_point [of plainWeapon] st ne rg by auto
qed

subsection \<open>Weapons that no PC owns\<close>

lemma Weapon_PC_None_iff:
  "Weapon_PC w = None \<longleftrightarrow>
     (Owner w = None
      \<or> (\<exists>ow. Owner w = Some ow \<and> OwningEntity ow = None)
      \<or> (\<exists>ow e. Owner w = Some ow \<and> OwningEntity ow = Some e \<and> Entity_Type e \<noteq> PC))"
  by (auto simp: Weapon_PC_def Weapon_Entity_def split: option.splits)

text \<open>
  Claim C10. When the owner chain of a weapon yields no PC (no owner, an owner without an
  owning entity, or an entity that is not a PC), \<open>SkillLevel\<close> returns zero and
  \<open>ResolvedParry\<close> and \<open>ResolvedBlock\<close> return the stored text as it is; the tooltip
  buffer and the store are left alone.
\<close>

theorem no_PC_no_resolution:
  assumes "Owner w = None
      \<or> (\<exists>ow. Owner w = Some ow \<and> OwningEntity ow = None)
      \<or> (\<exists>ow e. Owner w = Some ow \<and> OwningEntity ow = Some e \<and> Entity_Type e \<noteq> PC)"
  shows "SkillLevel X w tooltip s = (0, tooltip, s)
       \<and> ResolvedParry X w tooltip s = (Parry w, tooltip, s)
       \<and> ResolvedBlock X w tooltip s = (Block w, tooltip, s)"
proof -
  from assms have "Weapon_PC w = None" by (simp only: Weapon_PC_None_iff)
  then show ?thesis
    by (simp add: SkillLevel_def ResolvedParry_def ResolvedBlock_def resolvedValue_def)
qed

theorem no_PC_no_resolution_witness:
  "Owner unownedWeapon = None
   \<and> (\<exists>ow. Owner looseWeapon = Some ow \<and> OwningEntity ow = None)
   \<and> (\<exists>ow e. Owner npcWeapon = Some ow \<and> OwningEntity ow = Some e \<and> Entity_Type e \<noteq> PC)
   \<and> SkillLevel noExternals unownedWeapon (Some []) emptyStore = (0, Some [], emptyStore)
   \<and> ResolvedParry noExternals looseWeapon None emptyStore = (''+2F'', None, emptyStore)
   \<and> ResolvedBlock noExternals npcWeapon None emptyStore = (''-1'', None, emptyStore)"
proof -
  have a: "Owner unownedWeapon = None" by (simp add: unownedWeapon_def)
  have b: "\<exists>ow. Owner looseWeapon = Some ow \<and> OwningEntity ow = None"
    by (simp add: looseWeapon_def)
  have c: "\<exists>ow e. Owner npcWeapon = Some ow \<and> OwningEntity ow = Some e \<and> Entity_Type e \<noteq> PC"
    by (simp add: npcWeapon_def)
  have p: "Parry looseWeapon = ''+2F''" "Block npcWeapon = ''-1''"
    by (simp_all add: looseWeapon_def npcWeapon_def unownedWeapon_def)
  show ?thesis
    using a b c p
      no_PC_no_resolution [of unownedWeapon noExternals "Some []" emptyStore]
      no_PC_no_resolution [of looseWeapon noExternals None emptyStore]
      no_PC_no_resolution [of npcWeapon noExternals None emptyStore]
    by simp
qed

subsection \<open>Attribute prerequisites\<close>

text \<open>
  Claim C9. \<open>AttributePrereq.Satisfied\<close> returns the match of the qualifier criteria on
  the current value of the attribute \<open>Which\<close> (plus that of \<open>CombinedWith\<close> when this
  field is not empty), inverted when \<open>Has\<close> is false. The tooltip buffer changes exactly
  when the verdict is "not satisfied" and the buffer is not nil, and then a text that is
  not empty has been appended to it.
\<close>

theorem Satisfied_verdict:
  "fst (Satisfied X p e tooltip prefix)
     = (nc_Matches (QualifierCriteria p)
          (ResolveAttributeCurrent e (Which p)
           + (if CombinedWith p \<noteq> [] then ResolveAttributeCurrent e (CombinedWith p) else 0))
        = Has p)
   \<and> (snd (Satisfied X p e tooltip prefix) \<noteq> tooltip
        \<longleftrightarrow> \<not> fst (Satisfied X p e tooltip prefix) \<and> tooltip \<noteq> None)
   \<and> (\<forall>buf. tooltip = Some buf \<and> \<not> fst (Satisfied X p e tooltip prefix)
        \<longrightarrow> (\<exists>txt. txt \<noteq> [] \<and> snd (Satisfied X p e tooltip prefix) = Some (buf @ txt)))"
  by (cases tooltip) (auto simp: Satisfied_def Let_def WriteString_def)

theorem Satisfied_verdict_witness:
  "\<not> fst (Satisfied noExternals strengthPrereq plainEntity (Some ''Sword'') ''\<newline>'')
   \<and> snd (Satisfied noExternals strengthPrereq plainEntity (Some ''Sword'') ''\<newline>'')
       = Some (''Sword'' @ ''\<newline>Has st which at least 12'')
   \<and> fst (Satisfied noExternals (strengthPrereq\<lparr>Has := False\<rparr>) plainEntity (Some ''Sword'') ''\<newline>'')
   \<and> snd (Satisfied noExternals (strengthPrereq\<lparr>Has := False\<rparr>) plainEntity (Some ''Sword'') ''\<newline>'')
       = Some ''Sword''"
proof -
  have m: "\<not> fxp_From 12 \<le>s fxp_From 10" by (simp add: fxp_From_def Multiplier_def)
  have "snd (Satisfied noExternals strengthPrereq plainEntity (Some ''Sword'') ''\<newline>'')
       = Some (''Sword'' @ ''\<newline>Has st which at least 12'')"
    using m by (simp add: Satisfied_def strengthPrereq_def plainEntity_def noExternals_def
        WriteString_def Let_def)
  then show ?thesis
    using m Satisfied_verdict [of noExternals strengthPrereq plainEntity "Some ''Sword''" "''\<newline>''"]
      Satisfied_verdict [of noExternals "strengthPrereq\<lparr>Has := False\<rparr>" plainEntity "Some ''Sword''" "''\<newline>''"]
    by (auto simp: strengthPrereq_def plainEntity_def)
qed

subsection \<open>Bonus aggregation: what is collected and what is written\<close>

lemma setLevel_restore [simp]: "setLevel (Level (wb_LeveledAmount b)) (setLevel x b) = b"
  by (simp add: setLevel_def)

lemma store_same [simp]:
  "s\<lparr>weaponBonuses := (weaponBonuses s)(r := weaponBonuses s r), errLog := errLog s\<rparr> = s"
  by simp

lemma extractWeaponBonus_store:
  "\<exists>lg. snd (snd (extractWeaponBonus X w f A d (bset, tt, s))) = s\<lparr>errLog := errLog s @ lg\<rparr>"
proof (cases f)
  case (WeaponBonusF r)
  show ?thesis
  proof (cases "wb_Type (weaponBonuses s r) \<in> A")
    case False
    then have "snd (snd (extractWeaponBonus X w f A d (bset, tt, s))) = s"
      by (simp add: extractWeaponBonus_def WeaponBonusF)
    then show ?thesis by (intro exI [of _ "[]"]) simp
  next
    case True
    show ?thesis
    proof (cases "\<exists>n. wb_SelectionType (weaponBonuses s r) = UnknownWeaponSelectionType n")
      case True
      then obtain n where "wb_SelectionType (weaponBonuses s r) = UnknownWeaponSelectionType n" ..
      then have "snd (snd (extractWeaponBonus X w f A d (bset, tt, s)))
                 = s\<lparr>errLog := errLog s @ [(''unknown selection type'', n)]\<rparr>"
        using \<open>wb_Type (weaponBonuses s r) \<in> A\<close>
        by (simp add: extractWeaponBonus_def WeaponBonusF Let_def setLevel_def)
      then show ?thesis by blast
    next
      case False
      then have "snd (snd (extractWeaponBonus X w f A d (bset, tt, s))) = s"
        using \<open>wb_Type (weaponBonuses s r) \<in> A\<close>
        by (cases "wb_SelectionType (weaponBonuses s r)")
           (simp_all add: extractWeaponBonus_def WeaponBonusF Let_def setLevel_def)
      then show ?thesis by (intro exI [of _ "[]"]) simp
    qed
  qed
qed (simp_all add: extractWeaponBonus_def exI [of _ "[]"])


lemma extractWeaponBonus_acc:
  "(fst (extractWeaponBonus X w f A d (bset, tt, s)),
    fst (snd (extractWeaponBonus X w f A d (bset, tt, s)))) = (bset, tt)
   \<or> (\<exists>r lvl. f = WeaponBonusF r \<and> wb_Type (weaponBonuses s r) \<in> A
         \<and> (wb_SelectionType (weaponBonuses s r) = ThisWeaponWeaponSelectionType
             \<or> wb_SelectionType (weaponBonuses s r) = WithNameWeaponSelectionType)
         \<and> (fst (extractWeaponBonus X w f A d (bset, tt, s)),
             fst (snd (extractWeaponBonus X w f A d (bset, tt, s))))
            = addToSet X r (setLevel lvl (weaponBonuses s r)) (bset, tt))"
proof (cases f)
  case (WeaponBonusF r)
  show ?thesis
  proof (cases "wb_Type (weaponBonuses s r) \<in> A")
    case False
    then show ?thesis by (simp add: extractWeaponBonus_def WeaponBonusF)
  next
    case True
    then show ?thesis
      by (cases "wb_SelectionType (weaponBonuses s r)")
         (auto simp: extractWeaponBonus_def WeaponBonusF Let_def setLevel_def)
  qed
qed (simp_all add: extractWeaponBonus_def)

lemma addToSet_collected:
  assumes "collected X A s0 t0 acc" and "rendersBonus X s0 r (WeaponBonusTooltip X b)"
    and "wb_Type (weaponBonuses s0 r) \<in> A"
  shows "collected X A s0 t0 (addToSet X r b acc)"
proof (cases "r \<in> set (fst acc)")
  case True
  then show ?thesis using assms(1) by (cases acc) (simp add: addToSet_def)
next
  case False
  from assms(1) obtain txts where d: "distinct (fst acc)"
    and a: "list_all (\<lambda>r. wb_Type (weaponBonuses s0 r) \<in> A) (fst acc)"
    and l: "list_all2 (rendersBonus X s0) (fst acc) txts"
    and t: "snd acc = map_option (\<lambda>buf. buf @ concat txts) t0"
    by (auto simp: collected_def)
  have l': "list_all2 (rendersBonus X s0) (fst acc @ [r]) (txts @ [WeaponBonusTooltip X b])"
    using l assms(2) by (simp add: list_all2_appendI)
  have t': "WeaponBonus_AddToTooltip X b (snd acc)
            = map_option (\<lambda>buf. buf @ concat (txts @ [WeaponBonusTooltip X b])) t0"
    by (cases t0) (simp_all add: t WeaponBonus_AddToTooltip_def WriteString_def)
  have "addToSet X r b acc = (fst acc @ [r], WeaponBonus_AddToTooltip X b (snd acc))"
    using False by (cases acc) (simp add: addToSet_def)
  then show ?thesis
    unfolding collected_def using d a assms(3) False l' t' by auto
qed

lemma collected_start: "collected X A s0 t0 ([], t0)"
  by (cases t0) (simp_all add: collected_def)

lemma subOwnersWritten_wb:
  "subOwnersWritten ms s0 s \<Longrightarrow>
     weaponBonuses s r = weaponBonuses s0 r
     \<or> (\<exists>m. m \<in> set ms \<and> WeaponBonusF r \<in> set (mod_Features m)
            \<and> weaponBonuses s r = (weaponBonuses s0 r)\<lparr>wb_SubOwner := Some (mod_ID m)\<rparr>)"
  by (simp add: subOwnersWritten_def)

lemma subOwnersWritten_sb:
  "subOwnersWritten ms s0 s \<Longrightarrow>
     skillBonuses s r = skillBonuses s0 r
     \<or> (\<exists>m. m \<in> set ms \<and> SkillBonusF r \<in> set (mod_Features m)
            \<and> skillBonuses s r = (skillBonuses s0 r)\<lparr>sb_SubOwner := Some (mod_ID m)\<rparr>)"
  by (simp add: subOwnersWritten_def)

lemma rendersBonus_written:
  assumes "subOwnersWritten ms s0 s"
  shows "rendersBonus X s0 r (WeaponBonusTooltip X (setLevel lvl (weaponBonuses s r)))"
proof -
  from subOwnersWritten_wb [OF assms, of r]
  have "weaponBonuses s r = weaponBonuses s0 r
      \<or> (\<exists>m::Modifier. weaponBonuses s r = (weaponBonuses s0 r)\<lparr>wb_SubOwner := Some (mod_ID m)\<rparr>)"
    by blast
  then show ?thesis
  proof
    assume e: "weaponBonuses s r = weaponBonuses s0 r"
    show ?thesis
      unfolding rendersBonus_def
      by (intro exI [of _ lvl] exI [of _ "wb_SubOwner (weaponBonuses s0 r)"])
         (simp add: e)
  next
    assume "\<exists>m::Modifier. weaponBonuses s r = (weaponBonuses s0 r)\<lparr>wb_SubOwner := Some (mod_ID m)\<rparr>"
    then obtain m :: Modifier
      where e: "weaponBonuses s r = (weaponBonuses s0 r)\<lparr>wb_SubOwner := Some (mod_ID m)\<rparr>" ..
    show ?thesis
      unfolding rendersBonus_def
      by (intro exI [of _ lvl] exI [of _ "Some (mod_ID m)"]) (simp add: e)
  qed
qed

lemma subOwnersWritten_refl: "subOwnersWritten ms s s"
  by (simp add: subOwnersWritten_def)

lemma subOwnersWritten_log:
  "subOwnersWritten ms s0 s \<Longrightarrow> subOwnersWritten ms s0 (s\<lparr>errLog := lg\<rparr>)"
  by (simp add: subOwnersWritten_def)

lemma subOwnersWritten_SetSubOwner:
  assumes w: "subOwnersWritten ms s0 s" and m: "m \<in> set ms" and f: "f \<in> set (mod_Features m)"
  shows "subOwnersWritten ms s0 (SetSubOwner f (mod_ID m) s)"
proof (cases f)
  case (WeaponBonusF r)
  have "weaponBonuses s r = weaponBonuses s0 r
      \<or> (\<exists>m'::Modifier. weaponBonuses s r = (weaponBonuses s0 r)\<lparr>wb_SubOwner := Some (mod_ID m')\<rparr>)"
    using subOwnersWritten_wb [OF w, of r] by blast
  then have "(weaponBonuses s r)\<lparr>wb_SubOwner := Some (mod_ID m)\<rparr>
             = (weaponBonuses s0 r)\<lparr>wb_SubOwner := Some (mod_ID m)\<rparr>"
    by auto
  then show ?thesis
    using w m f unfolding subOwnersWritten_def WeaponBonusF by auto
next
  case (SkillBonusF r)
  have "skillBonuses s r = skillBonuses s0 r
      \<or> (\<exists>m'::Modifier. skillBonuses s r = (skillBonuses s0 r)\<lparr>sb_SubOwner := Some (mod_ID m')\<rparr>)"
    using subOwnersWritten_sb [OF w, of r] by blast
  then have "(skillBonuses s r)\<lparr>sb_SubOwner := Some (mod_ID m)\<rparr>
             = (skillBonuses s0 r)\<lparr>sb_SubOwner := Some (mod_ID m)\<rparr>"
    by auto
  then show ?thesis
    using w m f unfolding subOwnersWritten_def SkillBonusF by auto
next
  case (OtherBonusF r t)
  then show ?thesis
    using w m f unfolding subOwnersWritten_def by auto
next
  case (OtherFeature t)
  then show ?thesis using w by simp
qed

lemma extractWeaponBonus_inv:
  assumes c: "collected X A s0 t0 (bset, tt)" and w: "subOwnersWritten ms s0 s"
    and e: "extractWeaponBonus X wp f A d (bset, tt, s) = (bset', tt', s')"
  shows "collected X A s0 t0 (bset', tt') \<and> subOwnersWritten ms s0 s'"
proof
  from extractWeaponBonus_store [of X wp f A d bset tt s] e
  obtain lg where "s' = s\<lparr>errLog := errLog s @ lg\<rparr>" by auto
  then show "subOwnersWritten ms s0 s'" using w by (simp add: subOwnersWritten_log)
  from extractWeaponBonus_acc [of X wp f A d bset tt s] e
  have "(bset', tt') = (bset, tt)
        \<or> (\<exists>r lvl. wb_Type (weaponBonuses s r) \<in> A
              \<and> (bset', tt') = addToSet X r (setLevel lvl (weaponBonuses s r)) (bset, tt))"
    by auto
  moreover have "wb_Type (weaponBonuses s r) = wb_Type (weaponBonuses s0 r)" for r
    using subOwnersWritten_wb [OF w, of r] by auto
  ultimately show "collected X A s0 t0 (bset', tt')"
    using c addToSet_collected [OF c rendersBonus_written [OF w]] by auto
qed


lemma fold_extract_inv:
  assumes "collected X A s0 t0 (bset, tt)" and "subOwnersWritten ms s0 s"
    and "fold (\<lambda>f. extractWeaponBonus X wp f A d) fs (bset, tt, s) = (bset', tt', s')"
  shows "collected X A s0 t0 (bset', tt') \<and> subOwnersWritten ms s0 s'"
  using assms
proof (induction fs arbitrary: bset tt s)
  case Nil
  then show ?case by simp
next
  case (Cons f fs)
  obtain b1 t1 s1 where e: "extractWeaponBonus X wp f A d (bset, tt, s) = (b1, t1, s1)"
    by (cases "extractWeaponBonus X wp f A d (bset, tt, s)") auto
  from extractWeaponBonus_inv [OF Cons.prems(1,2) e]
  have "collected X A s0 t0 (b1, t1)" and "subOwnersWritten ms s0 s1" by auto
  moreover have "fold (\<lambda>f. extractWeaponBonus X wp f A d) fs (b1, t1, s1) = (bset', tt', s')"
    using Cons.prems(3) e by simp
  ultimately show ?case by (rule Cons.IH)
qed

lemma modifierFeatures_step_inv:
  assumes "collected X A s0 t0 (bset, tt)" and "subOwnersWritten ms s0 s"
    and "m \<in> set ms" and "set fs \<subseteq> set (mod_Features m)"
    and "fold (\<lambda>f (bset, tooltip, s).
                 extractWeaponBonus X wp f A d (bset, tooltip, SetSubOwner f (mod_ID m) s))
              fs (bset, tt, s) = (bset', tt', s')"
  shows "collected X A s0 t0 (bset', tt') \<and> subOwnersWritten ms s0 s'"
  using assms
proof (induction fs arbitrary: bset tt s)
  case Nil
  then show ?case by simp
next
  case (Cons f fs)
  have w: "subOwnersWritten ms s0 (SetSubOwner f (mod_ID m) s)"
    using Cons.prems(2,3,4) by (intro subOwnersWritten_SetSubOwner) auto
  obtain b1 t1 s1 where
    e: "extractWeaponBonus X wp f A d (bset, tt, SetSubOwner f (mod_ID m) s) = (b1, t1, s1)"
    by (cases "extractWeaponBonus X wp f A d (bset, tt, SetSubOwner f (mod_ID m) s)") auto
  from extractWeaponBonus_inv [OF Cons.prems(1) w e]
  have "collected X A s0 t0 (b1, t1)" and "subOwnersWritten ms s0 s1" by auto
  moreover note Cons.prems(3)
  moreover have "set fs \<subseteq> set (mod_Features m)" using Cons.prems(4) by simp
  moreover have "fold (\<lambda>f (bset, tooltip, s).
                 extractWeaponBonus X wp f A d (bset, tooltip, SetSubOwner f (mod_ID m) s))
              fs (b1, t1, s1) = (bset', tt', s')"
    using Cons.prems(5) e by simp
  ultimately show ?case by (rule Cons.IH)
qed

lemma fold_modifierFeatures_inv:
  assumes "collected X A s0 t0 (bset, tt)" and "subOwnersWritten ms s0 s"
    and "set xs \<subseteq> set ms"
    and "fold (modifierFeatures X wp A d) xs (bset, tt, s) = (bset', tt', s')"
  shows "collected X A s0 t0 (bset', tt') \<and> subOwnersWritten ms s0 s'"
  using assms
proof (induction xs arbitrary: bset tt s)
  case Nil
  then show ?case by simp
next
  case (Cons m xs)
  obtain b1 t1 s1 where e: "modifierFeatures X wp A d m (bset, tt, s) = (b1, t1, s1)"
    by (cases "modifierFeatures X wp A d m (bset, tt, s)") auto
  have "m \<in> set ms" using Cons.prems(3) by simp
  from modifierFeatures_step_inv [OF Cons.prems(1,2) this subset_refl e [unfolded modifierFeatures_def]]
  have "collected X A s0 t0 (b1, t1)" and "subOwnersWritten ms s0 s1" by auto
  moreover have "set xs \<subseteq> set ms" using Cons.prems(3) by simp
  moreover have "fold (modifierFeatures X wp A d) xs (b1, t1, s1) = (bset', tt', s')"
    using Cons.prems(4) e by simp
  ultimately show ?case by (rule Cons.IH)
qed

lemma addEntityWeaponBonuses_collected:
  "collected X A s t0 acc \<Longrightarrow> collected X A s t0 (addEntityWeaponBonuses X A lvl s rs acc)"
proof (induction rs arbitrary: acc)
  case Nil
  then show ?case by simp
next
  case (Cons r rs)
  have "wb_Type (weaponBonuses s r) \<in> A \<Longrightarrow>
        collected X A s t0 (addToSet X r (setLevel lvl (weaponBonuses s r)) acc)"
    using Cons.prems rendersBonus_written [OF subOwnersWritten_refl]
    by (rule addToSet_collected)
  then show ?case using Cons by simp
qed

lemma collectWeaponBonuses_inv:
  assumes "collectWeaponBonuses X w dc tooltip A s = (bonuses, tooltip', s')"
  shows "collected X (set A) s tooltip (bonuses, tooltip') \<and> subOwnersWritten (Owner_Modifiers w) s s'"
proof (cases "Weapon_PC w")
  case None
  then show ?thesis
    using assms by (auto simp: collectWeaponBonuses_def collected_start subOwnersWritten_refl)
next
  case (Some pc)
  define st1 where "st1 =
    (case snd (bestSkillDefault X pc (Defaults w) (fxp_Min, None)) of
       None \<Rightarrow> ([], tooltip)
     | Some d \<Rightarrow> AddWeaponWithSkillBonusesFor X pc (Name d) (Specialization d)
                   (Owner_TagList w) dc (set A) s ([], tooltip))"
  define st2 where "st2 =
    AddNamedWeaponBonusesFor X pc (Weapon_String w) (Usage w) (Owner_TagList w) dc (set A) s st1"
  define st3 where "st3 =
    fold (\<lambda>f. extractWeaponBonus X w f (set A) (fxp_From dc)) (Owner_FeatureList w)
      (fst st2, snd st2, s)"
  have c1: "collected X (set A) s tooltip st1"
    unfolding st1_def AddWeaponWithSkillBonusesFor_def
    by (auto split: option.splits intro: collected_start addEntityWeaponBonuses_collected)
  have c2: "collected X (set A) s tooltip (fst st2, snd st2)"
    unfolding st2_def AddNamedWeaponBonusesFor_def
    using addEntityWeaponBonuses_collected [OF c1] by simp
  obtain b3 t3 s3 where e3: "st3 = (b3, t3, s3)" by (cases st3) auto
  from fold_extract_inv [OF c2 subOwnersWritten_refl e3 [unfolded st3_def]]
  have c3: "collected X (set A) s tooltip (b3, t3)" and w3: "subOwnersWritten (Owner_Modifiers w) s s3"
    by auto
  have "collectWeaponBonuses X w dc tooltip A s
        = fold (modifierFeatures X w (set A) (fxp_From dc)) (Owner_Modifiers w) st3"
    by (simp add: collectWeaponBonuses_def Some Let_def st1_def st2_def st3_def)
  then have "fold (modifierFeatures X w (set A) (fxp_From dc)) (Owner_Modifiers w) (b3, t3, s3)
             = (bonuses, tooltip', s')"
    using assms e3 by simp
  from fold_modifierFeatures_inv [OF c3 w3 subset_refl this] show ?thesis .
qed

lemmas example_defs =
  collectWeaponBonuses_def Weapon_PC_def Weapon_Entity_def Weapon_String_def Owner_TagList_def
  Owner_FeatureList_def Owner_Modifiers_def plainWeapon_def plainOwner_def plainEntity_def
  AddNamedWeaponBonusesFor_def AddWeaponWithSkillBonusesFor_def modifierFeatures_def
  extractWeaponBonus_def addToSet_def setLevel_def WeaponBonus_AddToTooltip_def
  WriteString_def noExternals_def emptyStore_def Let_def

lemma twoPaths_example:
  "collectWeaponBonuses tellingExternals twoPathsWeapon 1 (Some []) [WeaponBonusFeatureType] plusOneStore
   = ([1], Some ''\<newline>item'',
      plusOneStore\<lparr>weaponBonuses := (weaponBonuses plusOneStore)
         (1 := (weaponBonuses plusOneStore 1)\<lparr>wb_SubOwner := Some 7\<rparr>)\<rparr>)"
  by (simp add: example_defs twoPathsWeapon_def tellingExternals_def plusOneStore_def)

lemma twoModifiers_example:
  "collectWeaponBonuses tellingExternals twoModifiersWeapon 1 (Some []) [WeaponBonusFeatureType] plusOneStore
   = ([1, 2], Some ''\<newline>modifier 7\<newline>modifier 8'',
      plusOneStore\<lparr>weaponBonuses := (weaponBonuses plusOneStore)
         (1 := (weaponBonuses plusOneStore 1)\<lparr>wb_SubOwner := Some 7\<rparr>,
          2 := (weaponBonuses plusOneStore 2)\<lparr>wb_SubOwner := Some 8\<rparr>)\<rparr>)"
  by (simp add: example_defs twoModifiersWeapon_def tellingExternals_def plusOneStore_def
      digits.simps digitChar_def)


lemma addToSet_set: "set (fst (addToSet X r b acc)) = insert r (set (fst acc))"
  by (cases acc) (auto simp: addToSet_def)

lemma featureBonuses_append:
  "featureBonuses w A s (fs @ gs) = featureBonuses w A s fs @ featureBonuses w A s gs"
  by (simp add: featureBonuses_def)

lemma featureBonuses_Nil: "featureBonuses w A s [] = []"
  by (simp add: featureBonuses_def)

lemma featureBonuses_Cons:
  "featureBonuses w A s (f # fs) = featureBonuses w A s [f] @ featureBonuses w A s fs"
  by (simp add: featureBonuses_def)

lemma selects_setLevel: "selects w (setLevel l b) = selects w b"
  by (simp add: selects_def setLevel_def split: WeaponSelectionType.splits)

lemma extractWeaponBonus_set:
  "set (fst (extractWeaponBonus X w f A d (bset, tt, s)))
   = set bset \<union> set (featureBonuses w A s [f])"
proof (cases f)
  case (WeaponBonusF r)
  show ?thesis
  proof (cases "wb_Type (weaponBonuses s r) \<in> A")
    case False
    then show ?thesis by (simp add: extractWeaponBonus_def WeaponBonusF featureBonuses_def)
  next
    case True
    then show ?thesis
      by (cases "wb_SelectionType (weaponBonuses s r)")
         (auto simp: extractWeaponBonus_def WeaponBonusF Let_def setLevel_def featureBonuses_def
            selects_def addToSet_def)
  qed
qed (simp_all add: extractWeaponBonus_def featureBonuses_def)

lemma featureBonuses_written:
  assumes "subOwnersWritten ms s0 s"
  shows "featureBonuses w A s fs = featureBonuses w A s0 fs"
proof -
  have "wb_Type (weaponBonuses s r) = wb_Type (weaponBonuses s0 r)
        \<and> selects w (weaponBonuses s r) = selects w (weaponBonuses s0 r)" for r
  proof -
    from subOwnersWritten_wb [OF assms, of r]
    have "weaponBonuses s r = weaponBonuses s0 r
        \<or> (\<exists>i. weaponBonuses s r = (weaponBonuses s0 r)\<lparr>wb_SubOwner := Some i\<rparr>)"
      by blast
    then show ?thesis
      by (elim disjE exE) (simp_all add: selects_def split: WeaponSelectionType.splits)
  qed
  then show ?thesis
    unfolding featureBonuses_def
    by (intro arg_cong [where f = concat] map_cong refl) (simp split: Feature.splits)
qed

lemma extractWeaponBonus_written:
  assumes "subOwnersWritten ms s0 s"
  shows "subOwnersWritten ms s0 (snd (snd (extractWeaponBonus X w f A d (bset, tt, s))))"
proof -
  from extractWeaponBonus_store [of X w f A d bset tt s]
  obtain lg where "snd (snd (extractWeaponBonus X w f A d (bset, tt, s))) = s\<lparr>errLog := errLog s @ lg\<rparr>"
    by auto
  then show ?thesis using assms by (simp add: subOwnersWritten_log)
qed

lemma fold_extract_set:
  assumes "subOwnersWritten ms s0 s"
  shows "set (fst (fold (\<lambda>f. extractWeaponBonus X w f A d) fs (bset, tt, s)))
           = set bset \<union> set (featureBonuses w A s0 fs)
         \<and> subOwnersWritten ms s0 (snd (snd (fold (\<lambda>f. extractWeaponBonus X w f A d) fs (bset, tt, s))))"
  using assms
proof (induction fs arbitrary: bset tt s)
  case Nil
  then show ?case by (simp add: featureBonuses_Nil)
next
  case (Cons f fs)
  obtain b1 t1 s1 where e: "extractWeaponBonus X w f A d (bset, tt, s) = (b1, t1, s1)"
    by (cases "extractWeaponBonus X w f A d (bset, tt, s)") auto
  have b1: "set b1 = set bset \<union> set (featureBonuses w A s0 [f])"
    using extractWeaponBonus_set [of X w f A d bset tt s] e
      featureBonuses_written [OF Cons.prems, of w A "[f]"] by simp
  have w1: "subOwnersWritten ms s0 s1"
    using extractWeaponBonus_written [OF Cons.prems, of X w f A d bset tt] e by simp
  from Cons.IH [OF w1, of b1 t1] show ?case
    using e b1 featureBonuses_Cons [of w A s0 f fs] by (simp add: Un_assoc)
qed

lemma modifierFeatures_step_set:
  assumes "subOwnersWritten ms s0 s" and "m \<in> set ms" and "set fs \<subseteq> set (mod_Features m)"
  shows "set (fst (fold (\<lambda>f (bset, tooltip, s).
                     extractWeaponBonus X w f A d (bset, tooltip, SetSubOwner f (mod_ID m) s))
                  fs (bset, tt, s)))
           = set bset \<union> set (featureBonuses w A s0 fs)
         \<and> subOwnersWritten ms s0 (snd (snd (fold (\<lambda>f (bset, tooltip, s).
                     extractWeaponBonus X w f A d (bset, tooltip, SetSubOwner f (mod_ID m) s))
                  fs (bset, tt, s))))"
  using assms
proof (induction fs arbitrary: bset tt s)
  case Nil
  then show ?case by (simp add: featureBonuses_Nil)
next
  case (Cons f fs)
  have w: "subOwnersWritten ms s0 (SetSubOwner f (mod_ID m) s)"
    using Cons.prems by (intro subOwnersWritten_SetSubOwner) auto
  obtain b1 t1 s1 where
    e: "extractWeaponBonus X w f A d (bset, tt, SetSubOwner f (mod_ID m) s) = (b1, t1, s1)"
    by (cases "extractWeaponBonus X w f A d (bset, tt, SetSubOwner f (mod_ID m) s)") auto
  have b1: "set b1 = set bset \<union> set (featureBonuses w A s0 [f])"
    using extractWeaponBonus_set [of X w f A d bset tt "SetSubOwner f (mod_ID m) s"] e
      featureBonuses_written [OF w, of w A "[f]"] by simp
  have w1: "subOwnersWritten ms s0 s1"
    using extractWeaponBonus_written [OF w, of X w f A d bset tt] e by simp
  have "set fs \<subseteq> set (mod_Features m)" using Cons.prems(3) by simp
  from Cons.IH [OF w1 Cons.prems(2) this, of b1 t1] show ?case
    using e b1 featureBonuses_Cons [of w A s0 f fs] by (simp add: Un_assoc)
qed

lemma fold_modifierFeatures_set:
  assumes "subOwnersWritten ms s0 s" and "set xs \<subseteq> set ms"
  shows "set (fst (fold (modifierFeatures X w A d) xs (bset, tt, s)))
           = set bset \<union> set (featureBonuses w A s0 (concat (map mod_Features xs)))
         \<and> subOwnersWritten ms s0 (snd (snd (fold (modifierFeatures X w A d) xs (bset, tt, s))))"
  using assms
proof (induction xs arbitrary: bset tt s)
  case Nil
  then show ?case by (simp add: featureBonuses_Nil)
next
  case (Cons m xs)
  obtain b1 t1 s1 where e: "modifierFeatures X w A d m (bset, tt, s) = (b1, t1, s1)"
    by (cases "modifierFeatures X w A d m (bset, tt, s)") auto
  have m: "m \<in> set ms" and xs: "set xs \<subseteq> set ms" using Cons.prems(2) by simp_all
  from modifierFeatures_step_set [OF Cons.prems(1) m subset_refl, of X w A d bset tt]
  have b1: "set b1 = set bset \<union> set (featureBonuses w A s0 (mod_Features m))"
    and w1: "subOwnersWritten ms s0 s1"
    using e by (simp_all add: modifierFeatures_def)
  from Cons.IH [OF w1 xs, of b1 t1] show ?case
    using e b1 by (simp add: featureBonuses_append Un_assoc)
qed

lemma addEntityWeaponBonuses_set:
  "set (fst (addEntityWeaponBonuses X A lvl s rs acc))
   = set (fst acc) \<union> set (filter (\<lambda>r. wb_Type (weaponBonuses s r) \<in> A) rs)"
proof (induction rs arbitrary: acc)
  case Nil
  then show ?case by simp
next
  case (Cons r rs)
  show ?case by (simp add: Cons.IH addToSet_set)
qed

lemma collectWeaponBonuses_set:
  "set (fst (collectWeaponBonuses X w dc tooltip A s)) = set (reachedBonuses X w A s)"
proof (cases "Weapon_PC w")
  case None
  then show ?thesis by (simp add: collectWeaponBonuses_def reachedBonuses_def)
next
  case (Some pc)
  define st1 where "st1 =
    (case snd (bestSkillDefault X pc (Defaults w) (fxp_Min, None)) of
       None \<Rightarrow> ([], tooltip)
     | Some d \<Rightarrow> AddWeaponWithSkillBonusesFor X pc (Name d) (Specialization d)
                   (Owner_TagList w) dc (set A) s ([], tooltip))"
  define st2 where "st2 =
    AddNamedWeaponBonusesFor X pc (Weapon_String w) (Usage w) (Owner_TagList w) dc (set A) s st1"
  define st3 where "st3 =
    fold (\<lambda>f. extractWeaponBonus X w f (set A) (fxp_From dc)) (Owner_FeatureList w)
      (fst st2, snd st2, s)"
  define keyed where "keyed =
    (case snd (bestSkillDefault X pc (Defaults w) (fxp_Min, None)) of
       None \<Rightarrow> []
     | Some d \<Rightarrow> WeaponWithSkillBonusRefs pc (Name d) (Specialization d) (Owner_TagList w))"
  have c1: "set (fst st1) = set (filter (\<lambda>r. wb_Type (weaponBonuses s r) \<in> set A) keyed)"
    unfolding st1_def keyed_def AddWeaponWithSkillBonusesFor_def
    by (simp add: addEntityWeaponBonuses_set split: option.splits)
  have c2: "set (fst st2) = set (filter (\<lambda>r. wb_Type (weaponBonuses s r) \<in> set A)
              (keyed @ NamedWeaponBonusRefs pc (Weapon_String w) (Usage w) (Owner_TagList w)))"
    unfolding st2_def AddNamedWeaponBonusesFor_def
    by (simp add: addEntityWeaponBonuses_set c1)
  obtain b3 t3 s3 where e3: "st3 = (b3, t3, s3)" by (cases st3) auto
  from fold_extract_set [OF subOwnersWritten_refl [of "Owner_Modifiers w" s],
      of X w "set A" "fxp_From dc" "Owner_FeatureList w" "fst st2" "snd st2"]
  have c3: "set b3 = set (fst st2) \<union> set (featureBonuses w (set A) s (Owner_FeatureList w))"
    and w3: "subOwnersWritten (Owner_Modifiers w) s s3"
    using e3 by (simp_all add: st3_def)
  have "collectWeaponBonuses X w dc tooltip A s
        = fold (modifierFeatures X w (set A) (fxp_From dc)) (Owner_Modifiers w) (b3, t3, s3)"
    by (simp add: collectWeaponBonuses_def Some Let_def st1_def st2_def st3_def e3 [symmetric])
  then have "set (fst (collectWeaponBonuses X w dc tooltip A s))
        = set b3 \<union> set (featureBonuses w (set A) s (concat (map mod_Features (Owner_Modifiers w))))"
    using fold_modifierFeatures_set [OF w3 subset_refl, of X w "set A" "fxp_From dc" b3 t3] by simp
  then show ?thesis
    by (simp add: c3 c2 reachedBonuses_def Some keyed_def featureBonuses_append Un_assoc)
qed

lemma sameList_example:
  "collectWeaponBonuses tellingExternals sameListWeapon 1 (Some []) [WeaponBonusFeatureType] plusOneStore
   = ([1, 2], Some ''\<newline>item\<newline>item'', plusOneStore)"
  by (simp add: example_defs sameListWeapon_def tellingExternals_def plusOneStore_def fun_eq_iff)

lemma oneModifier_example:
  "collectWeaponBonuses tellingExternals oneModifierWeapon 1 (Some []) [WeaponBonusFeatureType] plusOneStore
   = ([1, 2], Some ''\<newline>modifier 7\<newline>modifier 7'',
      plusOneStore\<lparr>weaponBonuses := (weaponBonuses plusOneStore)
         (1 := (weaponBonuses plusOneStore 1)\<lparr>wb_SubOwner := Some 7\<rparr>,
          2 := (weaponBonuses plusOneStore 2)\<lparr>wb_SubOwner := Some 7\<rparr>)\<rparr>)"
  by (simp add: example_defs oneModifierWeapon_def tellingExternals_def plusOneStore_def
      digits.simps digitChar_def)

lemmas reached_defs =
  reachedBonuses_def featureBonuses_def selects_def Weapon_PC_def Weapon_Entity_def
  Weapon_String_def Owner_TagList_def Owner_FeatureList_def Owner_Modifiers_def plainWeapon_def
  plainOwner_def plainEntity_def emptyStore_def plusOneStore_def

lemma twoPaths_reached:
  "reachedBonuses tellingExternals twoPathsWeapon [WeaponBonusFeatureType] plusOneStore = [1, 1]"
  by (simp add: reached_defs twoPathsWeapon_def)

lemma sameList_reached:
  "reachedBonuses tellingExternals sameListWeapon [WeaponBonusFeatureType] plusOneStore = [1, 2]"
  by (simp add: reached_defs sameListWeapon_def)

lemma distinct_count_list: "distinct xs \<Longrightarrow> x \<in> set xs \<Longrightarrow> count_list xs x = 1"
  by (induction xs) auto

text \<open>
  Claim C2. \<open>collectWeaponBonuses\<close> keys its set by the bonus object. The collection it
  returns holds exactly the bonuses that the traversal reaches on some path
  (\<open>reachedBonuses\<close> lists every occurrence), each of them once, however many paths lead
  to it and whatever the values of the other bonuses: two different bonuses that are reached
  are both in the collection, also when their records are equal. The tooltip buffer has
  grown by exactly one tooltip text for each bonus of the collection, in the order in which
  they were found. A bonus that is a feature of the equipment and of its modifier is reached
  twice and collected once, with one line; two different bonuses of equal value on two
  modifiers of one equipment, on one modifier, or on the equipment itself are both
  collected, add up to +2 and give two lines.
\<close>

theorem collectWeaponBonuses_dedup:
  "(\<forall>bonuses tooltip' s'.
      collectWeaponBonuses X w dieCount tooltip allowed s = (bonuses, tooltip', s')
      \<longrightarrow> distinct bonuses
          \<and> set bonuses = set (reachedBonuses X w allowed s)
          \<and> (\<forall>r \<in> set (reachedBonuses X w allowed s). count_list bonuses r = 1)
          \<and> (\<forall>r1 r2. r1 \<in> set (reachedBonuses X w allowed s)
                     \<and> r2 \<in> set (reachedBonuses X w allowed s) \<and> r1 \<noteq> r2
                     \<and> weaponBonuses s r1 = weaponBonuses s r2
                \<longrightarrow> r1 \<in> set bonuses \<and> r2 \<in> set bonuses)
          \<and> (\<exists>txts. length txts = length bonuses
                    \<and> list_all2 (rendersBonus X s) bonuses txts
                    \<and> tooltip' = map_option (\<lambda>buf. buf @ concat txts) tooltip))
   \<and> reachedBonuses tellingExternals twoPathsWeapon [WeaponBonusFeatureType] plusOneStore = [1, 1]
   \<and> (case collectWeaponBonuses tellingExternals twoPathsWeapon 1 (Some [])
              [WeaponBonusFeatureType] plusOneStore of
         (bonuses, tooltip', s') \<Rightarrow> bonuses = [1] \<and> tooltip' = Some ''\<newline>item'')
   \<and> (case collectWeaponBonuses tellingExternals twoModifiersWeapon 1 (Some [])
              [WeaponBonusFeatureType] plusOneStore of
         (bonuses, tooltip', s') \<Rightarrow>
            bonuses = [1, 2] \<and> sumAdjusted s' bonuses 0 = fxp_From 2
            \<and> tooltip' = Some ''\<newline>modifier 7\<newline>modifier 8'')
   \<and> weaponBonuses plusOneStore 1 = weaponBonuses plusOneStore 2
   \<and> reachedBonuses tellingExternals sameListWeapon [WeaponBonusFeatureType] plusOneStore = [1, 2]
   \<and> (case collectWeaponBonuses tellingExternals sameListWeapon 1 (Some [])
              [WeaponBonusFeatureType] plusOneStore of
         (bonuses, tooltip', s') \<Rightarrow>
            bonuses = [1, 2] \<and> sumAdjusted s' bonuses 0 = fxp_From 2
            \<and> tooltip' = Some ''\<newline>item\<newline>item''
            \<and> weaponBonuses s' 1 = weaponBonuses s' 2)
   \<and> (case collectWeaponBonuses tellingExternals oneModifierWeapon 1 (Some [])
              [WeaponBonusFeatureType] plusOneStore of
         (bonuses, tooltip', s') \<Rightarrow>
            bonuses = [1, 2] \<and> sumAdjusted s' bonuses 0 = fxp_From 2
            \<and> tooltip' = Some ''\<newline>modifier 7\<newline>modifier 7''
            \<and> weaponBonuses s' 1 = weaponBonuses s' 2)"
proof (intro conjI allI impI)
  fix bonuses tooltip' s'
  assume e: "collectWeaponBonuses X w dieCount tooltip allowed s = (bonuses, tooltip', s')"
  from collectWeaponBonuses_inv [OF e]
  have c: "collected X (set allowed) s tooltip (bonuses, tooltip')" by simp
  then show d: "distinct bonuses" by (simp add: collected_def)
  from collectWeaponBonuses_set [of X w dieCount tooltip allowed s] e
  show r: "set bonuses = set (reachedBonuses X w allowed s)" by simp
  from d r show "\<forall>r \<in> set (reachedBonuses X w allowed s). count_list bonuses r = 1"
    by (simp add: distinct_count_list)
  from c obtain txts where l: "list_all2 (rendersBonus X s) bonuses txts"
    and t: "tooltip' = map_option (\<lambda>buf. buf @ concat txts) tooltip"
    by (auto simp: collected_def)
  from l have "length txts = length bonuses" by (simp add: list_all2_lengthD)
  with l t show "\<exists>txts. length txts = length bonuses
                    \<and> list_all2 (rendersBonus X s) bonuses txts
                    \<and> tooltip' = map_option (\<lambda>buf. buf @ concat txts) tooltip"
    by blast
  fix r1 r2
  assume "r1 \<in> set (reachedBonuses X w allowed s)
          \<and> r2 \<in> set (reachedBonuses X w allowed s) \<and> r1 \<noteq> r2
          \<and> weaponBonuses s r1 = weaponBonuses s r2"
  with r show "r1 \<in> set bonuses" and "r2 \<in> set bonuses" by simp_all
next
  show "reachedBonuses tellingExternals twoPathsWeapon [WeaponBonusFeatureType] plusOneStore = [1, 1]"
    by (rule twoPaths_reached)
next
  show "case collectWeaponBonuses tellingExternals twoPathsWeapon 1 (Some [])
              [WeaponBonusFeatureType] plusOneStore of
         (bonuses, tooltip', s') \<Rightarrow> bonuses = [1] \<and> tooltip' = Some ''\<newline>item''"
    by (simp add: twoPaths_example)
next
  show "case collectWeaponBonuses tellingExternals twoModifiersWeapon 1 (Some [])
              [WeaponBonusFeatureType] plusOneStore of
         (bonuses, tooltip', s') \<Rightarrow>
            bonuses = [1, 2] \<and> sumAdjusted s' bonuses 0 = fxp_From 2
            \<and> tooltip' = Some ''\<newline>modifier 7\<newline>modifier 8''"
    unfolding twoModifiers_example
    by (simp add: sumAdjusted_def AdjustedAmount_def plusOneStore_def emptyStore_def fxp_From_def)
next
  show "weaponBonuses plusOneStore 1 = weaponBonuses plusOneStore 2"
    by (simp add: plusOneStore_def emptyStore_def)
next
  show "reachedBonuses tellingExternals sameListWeapon [WeaponBonusFeatureType] plusOneStore = [1, 2]"
    by (rule sameList_reached)
next
  show "case collectWeaponBonuses tellingExternals sameListWeapon 1 (Some [])
              [WeaponBonusFeatureType] plusOneStore of
         (bonuses, tooltip', s') \<Rightarrow>
            bonuses = [1, 2] \<and> sumAdjusted s' bonuses 0 = fxp_From 2
            \<and> tooltip' = Some ''\<newline>item\<newline>item''
            \<and> weaponBonuses s' 1 = weaponBonuses s' 2"
    unfolding sameList_example
    by (simp add: sumAdjusted_def AdjustedAmount_def plusOneStore_def emptyStore_def fxp_From_def)
next
  show "case collectWeaponBonuses tellingExternals oneModifierWeapon 1 (Some [])
              [WeaponBonusFeatureType] plusOneStore of
         (bonuses, tooltip', s') \<Rightarrow>
            bonuses = [1, 2] \<and> sumAdjusted s' bonuses 0 = fxp_From 2
            \<and> tooltip' = Some ''\<newline>modifier 7\<newline>modifier 7''
            \<and> weaponBonuses s' 1 = weaponBonuses s' 2"
    unfolding oneModifier_example
    by (simp add: sumAdjusted_def AdjustedAmount_def plusOneStore_def emptyStore_def fxp_From_def)
qed

theorem collectWeaponBonuses_dedup_witness:
  "collectWeaponBonuses tellingExternals twoPathsWeapon 1 (Some []) [WeaponBonusFeatureType]
      plusOneStore
     = ([1], Some ''\<newline>item'',
        plusOneStore\<lparr>weaponBonuses := (weaponBonuses plusOneStore)
           (1 := (weaponBonuses plusOneStore 1)\<lparr>wb_SubOwner := Some 7\<rparr>)\<rparr>)
   \<and> reachedBonuses tellingExternals twoPathsWeapon [WeaponBonusFeatureType] plusOneStore = [1, 1]
   \<and> distinct [1::nat]
   \<and> set [1::nat] = set (reachedBonuses tellingExternals twoPathsWeapon [WeaponBonusFeatureType]
                          plusOneStore)
   \<and> count_list [1::nat] 1 = 1
   \<and> (\<exists>txts. length txts = length [1::nat]
             \<and> list_all2 (rendersBonus tellingExternals plusOneStore) [1] txts
             \<and> Some ''\<newline>item'' = map_option (\<lambda>buf. buf @ concat txts) (Some []))"
  using collectWeaponBonuses_dedup [of tellingExternals twoPathsWeapon 1 "Some []"
      "[WeaponBonusFeatureType]" plusOneStore] twoPaths_example twoPaths_reached
  by simp

lemma extractWeaponBonus_data:
  "weaponBonuses (snd (snd (extractWeaponBonus X w f A d (bset, tt, s)))) = weaponBonuses s
   \<and> skillBonuses (snd (snd (extractWeaponBonus X w f A d (bset, tt, s)))) = skillBonuses s
   \<and> otherSubOwners (snd (snd (extractWeaponBonus X w f A d (bset, tt, s)))) = otherSubOwners s"
proof -
  from extractWeaponBonus_store [of X w f A d bset tt s]
  obtain lg where "snd (snd (extractWeaponBonus X w f A d (bset, tt, s))) = s\<lparr>errLog := errLog s @ lg\<rparr>"
    by blast
  then show ?thesis by simp
qed

lemma fold_extract_data:
  "weaponBonuses (snd (snd (fold (\<lambda>f. extractWeaponBonus X w f A d) fs (bset, tt, s)))) = weaponBonuses s
   \<and> skillBonuses (snd (snd (fold (\<lambda>f. extractWeaponBonus X w f A d) fs (bset, tt, s)))) = skillBonuses s
   \<and> otherSubOwners (snd (snd (fold (\<lambda>f. extractWeaponBonus X w f A d) fs (bset, tt, s)))) = otherSubOwners s"
proof (induction fs arbitrary: bset tt s)
  case Nil
  then show ?case by simp
next
  case (Cons f fs)
  obtain b1 t1 s1 where e: "extractWeaponBonus X w f A d (bset, tt, s) = (b1, t1, s1)"
    by (cases "extractWeaponBonus X w f A d (bset, tt, s)") auto
  from extractWeaponBonus_data [of X w f A d bset tt s] e
  have "weaponBonuses s1 = weaponBonuses s" "skillBonuses s1 = skillBonuses s"
    "otherSubOwners s1 = otherSubOwners s" by simp_all
  then show ?case using Cons.IH [of b1 t1 s1] e by simp
qed

lemma SetSubOwner_wb:
  "weaponBonuses (SetSubOwner f i s) r
   = (if f = WeaponBonusF r then (weaponBonuses s r)\<lparr>wb_SubOwner := Some i\<rparr> else weaponBonuses s r)"
  by (cases f) auto

lemma SetSubOwner_sb:
  "skillBonuses (SetSubOwner f i s) r
   = (if f = SkillBonusF r then (skillBonuses s r)\<lparr>sb_SubOwner := Some i\<rparr> else skillBonuses s r)"
  by (cases f) auto

lemma SetSubOwner_other:
  "otherSubOwners (SetSubOwner f i s) r
   = (if isOtherBonus r f then Some i else otherSubOwners s r)"
  by (cases f) (auto simp: isOtherBonus_def)

lemma modifierFeatures_data:
  "weaponBonuses (snd (snd (fold (\<lambda>f (bset, tooltip, s).
        extractWeaponBonus X w f A d (bset, tooltip, SetSubOwner f i s)) fs (bset, tt, s)))) r
     = (if list_ex (\<lambda>f. f = WeaponBonusF r) fs
        then (weaponBonuses s r)\<lparr>wb_SubOwner := Some i\<rparr> else weaponBonuses s r)
   \<and> skillBonuses (snd (snd (fold (\<lambda>f (bset, tooltip, s).
        extractWeaponBonus X w f A d (bset, tooltip, SetSubOwner f i s)) fs (bset, tt, s)))) r
     = (if list_ex (\<lambda>f. f = SkillBonusF r) fs
        then (skillBonuses s r)\<lparr>sb_SubOwner := Some i\<rparr> else skillBonuses s r)
   \<and> otherSubOwners (snd (snd (fold (\<lambda>f (bset, tooltip, s).
        extractWeaponBonus X w f A d (bset, tooltip, SetSubOwner f i s)) fs (bset, tt, s)))) r
     = (if list_ex (isOtherBonus r) fs then Some i else otherSubOwners s r)"
proof (induction fs arbitrary: bset tt s)
  case Nil
  then show ?case by simp
next
  case (Cons f fs)
  obtain b1 t1 s1 where
    e: "extractWeaponBonus X w f A d (bset, tt, SetSubOwner f i s) = (b1, t1, s1)"
    by (cases "extractWeaponBonus X w f A d (bset, tt, SetSubOwner f i s)") auto
  from extractWeaponBonus_data [of X w f A d bset tt "SetSubOwner f i s"] e
  have d: "weaponBonuses s1 = weaponBonuses (SetSubOwner f i s)"
    "skillBonuses s1 = skillBonuses (SetSubOwner f i s)"
    "otherSubOwners s1 = otherSubOwners (SetSubOwner f i s)" by simp_all
  show ?case
    using Cons.IH [of b1 t1 s1] e
    by (simp add: d SetSubOwner_wb SetSubOwner_sb SetSubOwner_other)
qed

lemma fold_modifierFeatures_data:
  "weaponBonuses (snd (snd (fold (modifierFeatures X w A d) ms (bset, tt, s)))) r
     = (case lastModifierWith (\<lambda>f. f = WeaponBonusF r) ms of
          None \<Rightarrow> weaponBonuses s r
        | Some i \<Rightarrow> (weaponBonuses s r)\<lparr>wb_SubOwner := Some i\<rparr>)
   \<and> skillBonuses (snd (snd (fold (modifierFeatures X w A d) ms (bset, tt, s)))) r
     = (case lastModifierWith (\<lambda>f. f = SkillBonusF r) ms of
          None \<Rightarrow> skillBonuses s r
        | Some i \<Rightarrow> (skillBonuses s r)\<lparr>sb_SubOwner := Some i\<rparr>)
   \<and> otherSubOwners (snd (snd (fold (modifierFeatures X w A d) ms (bset, tt, s)))) r
     = (case lastModifierWith (isOtherBonus r) ms of
          None \<Rightarrow> otherSubOwners s r
        | Some i \<Rightarrow> Some i)"
proof (induction ms arbitrary: bset tt s)
  case Nil
  then show ?case by simp
next
  case (Cons m ms)
  obtain b1 t1 s1 where e: "modifierFeatures X w A d m (bset, tt, s) = (b1, t1, s1)"
    by (cases "modifierFeatures X w A d m (bset, tt, s)") auto
  from modifierFeatures_data [of X w A d "mod_ID m" "mod_Features m" bset tt s r]
  have d: "weaponBonuses s1 r
        = (if list_ex (\<lambda>f. f = WeaponBonusF r) (mod_Features m)
           then (weaponBonuses s r)\<lparr>wb_SubOwner := Some (mod_ID m)\<rparr> else weaponBonuses s r)"
    "skillBonuses s1 r
        = (if list_ex (\<lambda>f. f = SkillBonusF r) (mod_Features m)
           then (skillBonuses s r)\<lparr>sb_SubOwner := Some (mod_ID m)\<rparr> else skillBonuses s r)"
    "otherSubOwners s1 r
        = (if list_ex (isOtherBonus r) (mod_Features m) then Some (mod_ID m) else otherSubOwners s r)"
    using e by (simp_all add: modifierFeatures_def)
  show ?case
    using Cons.IH [of b1 t1 s1] e
    by (simp add: d split: option.splits)
qed

lemma collectWeaponBonuses_data:
  "weaponBonuses (snd (snd (collectWeaponBonuses X w dc tooltip A s))) r
     = (case lastModifierWith (\<lambda>f. f = WeaponBonusF r) (traversedModifiers w) of
          None \<Rightarrow> weaponBonuses s r
        | Some i \<Rightarrow> (weaponBonuses s r)\<lparr>wb_SubOwner := Some i\<rparr>)
   \<and> skillBonuses (snd (snd (collectWeaponBonuses X w dc tooltip A s))) r
     = (case lastModifierWith (\<lambda>f. f = SkillBonusF r) (traversedModifiers w) of
          None \<Rightarrow> skillBonuses s r
        | Some i \<Rightarrow> (skillBonuses s r)\<lparr>sb_SubOwner := Some i\<rparr>)
   \<and> otherSubOwners (snd (snd (collectWeaponBonuses X w dc tooltip A s))) r
     = (case lastModifierWith (isOtherBonus r) (traversedModifiers w) of
          None \<Rightarrow> otherSubOwners s r
        | Some i \<Rightarrow> Some i)"
proof (cases "Weapon_PC w")
  case None
  then show ?thesis by (simp add: collectWeaponBonuses_def traversedModifiers_def)
next
  case (Some pc)
  define st1 where "st1 =
    (case snd (bestSkillDefault X pc (Defaults w) (fxp_Min, None)) of
       None \<Rightarrow> ([], tooltip)
     | Some d \<Rightarrow> AddWeaponWithSkillBonusesFor X pc (Name d) (Specialization d)
                   (Owner_TagList w) dc (set A) s ([], tooltip))"
  define st2 where "st2 =
    AddNamedWeaponBonusesFor X pc (Weapon_String w) (Usage w) (Owner_TagList w) dc (set A) s st1"
  define st3 where "st3 =
    fold (\<lambda>f. extractWeaponBonus X w f (set A) (fxp_From dc)) (Owner_FeatureList w)
      (fst st2, snd st2, s)"
  obtain b3 t3 s3 where e3: "st3 = (b3, t3, s3)" by (cases st3) auto
  from fold_extract_data [of X w "set A" "fxp_From dc" "Owner_FeatureList w" "fst st2" "snd st2" s]
  have d: "weaponBonuses s3 = weaponBonuses s" "skillBonuses s3 = skillBonuses s"
    "otherSubOwners s3 = otherSubOwners s"
    using e3 by (simp_all add: st3_def)
  have "collectWeaponBonuses X w dc tooltip A s
        = fold (modifierFeatures X w (set A) (fxp_From dc)) (Owner_Modifiers w) (b3, t3, s3)"
    by (simp add: collectWeaponBonuses_def Some Let_def st1_def st2_def st3_def e3 [symmetric])
  then show ?thesis
    using fold_modifierFeatures_data [of X w "set A" "fxp_From dc" "Owner_Modifiers w" b3 t3 s3 r,
        unfolded d]
    by (simp add: traversedModifiers_def Some)
qed

lemma lastModifierWith_Some:
  "lastModifierWith P ms = Some i
   \<Longrightarrow> \<exists>m. m \<in> set ms \<and> list_ex P (mod_Features m) \<and> mod_ID m = i"
  by (induction ms) (auto split: option.splits if_splits)

lemma lastModifierWith_None:
  "m \<in> set ms \<Longrightarrow> list_ex P (mod_Features m) \<Longrightarrow> lastModifierWith P ms \<noteq> None"
  by (induction ms) (auto split: option.splits)

lemma list_ex_eq: "list_ex (\<lambda>f. f = x) fs \<longleftrightarrow> x \<in> set fs"
  by (auto simp: list_ex_iff)

text \<open>
  Claim C6, as amended. After \<open>collectWeaponBonuses\<close> has returned, the level of every
  bonus is what it was before the call. The aggregation does write to the owner graph: for
  the weapon of a PC, every bonus that is a feature of a traversed modifier has its sub-owner
  back-reference set to a modifier that lists it (the last one in the order of the
  traversal), and this is the only write that remains: every other field of these bonuses,
  and every field of every other bonus, is what it was. Nothing is written for a weapon
  that no PC owns. The sub-owners stay set: another call leaves every bonus as the first
  call has left it. (The weapon, its owner, the modifiers and the entity are never assigned
  to by the code; they are values here.)
\<close>

theorem collectWeaponBonuses_writes:
  assumes "collectWeaponBonuses X w dieCount tooltip allowed s = (bonuses, tooltip', s')"
  shows "(\<forall>r. Level (wb_LeveledAmount (weaponBonuses s' r)) = Level (wb_LeveledAmount (weaponBonuses s r)))
       \<and> (\<forall>r. weaponBonuses s' r
               = (case lastModifierWith (\<lambda>f. f = WeaponBonusF r) (traversedModifiers w) of
                    None \<Rightarrow> weaponBonuses s r
                  | Some i \<Rightarrow> (weaponBonuses s r)\<lparr>wb_SubOwner := Some i\<rparr>))
       \<and> (\<forall>r. skillBonuses s' r
               = (case lastModifierWith (\<lambda>f. f = SkillBonusF r) (traversedModifiers w) of
                    None \<Rightarrow> skillBonuses s r
                  | Some i \<Rightarrow> (skillBonuses s r)\<lparr>sb_SubOwner := Some i\<rparr>))
       \<and> (\<forall>r. otherSubOwners s' r
               = (case lastModifierWith (isOtherBonus r) (traversedModifiers w) of
                    None \<Rightarrow> otherSubOwners s r
                  | Some i \<Rightarrow> Some i))
       \<and> (\<forall>m r. m \<in> set (traversedModifiers w) \<and> WeaponBonusF r \<in> set (mod_Features m)
              \<longrightarrow> (\<exists>m'. m' \<in> set (traversedModifiers w) \<and> WeaponBonusF r \<in> set (mod_Features m')
                        \<and> weaponBonuses s' r = (weaponBonuses s r)\<lparr>wb_SubOwner := Some (mod_ID m')\<rparr>))
       \<and> (\<forall>m r. m \<in> set (traversedModifiers w) \<and> SkillBonusF r \<in> set (mod_Features m)
              \<longrightarrow> (\<exists>m'. m' \<in> set (traversedModifiers w) \<and> SkillBonusF r \<in> set (mod_Features m')
                        \<and> skillBonuses s' r = (skillBonuses s r)\<lparr>sb_SubOwner := Some (mod_ID m')\<rparr>))
       \<and> (\<forall>m r t. m \<in> set (traversedModifiers w) \<and> OtherBonusF r t \<in> set (mod_Features m)
              \<longrightarrow> (\<exists>m'. m' \<in> set (traversedModifiers w) \<and> list_ex (isOtherBonus r) (mod_Features m')
                        \<and> otherSubOwners s' r = Some (mod_ID m')))
       \<and> (\<forall>r. weaponBonuses s' r = weaponBonuses s r
              \<or> (\<exists>m. m \<in> set (Owner_Modifiers w) \<and> WeaponBonusF r \<in> set (mod_Features m)
                     \<and> weaponBonuses s' r = (weaponBonuses s r)\<lparr>wb_SubOwner := Some (mod_ID m)\<rparr>))
       \<and> (\<forall>r. skillBonuses s' r = skillBonuses s r
              \<or> (\<exists>m. m \<in> set (Owner_Modifiers w) \<and> SkillBonusF r \<in> set (mod_Features m)
                     \<and> skillBonuses s' r = (skillBonuses s r)\<lparr>sb_SubOwner := Some (mod_ID m)\<rparr>))
       \<and> (\<forall>r. otherSubOwners s' r = otherSubOwners s r
              \<or> (\<exists>m t. m \<in> set (Owner_Modifiers w) \<and> OtherBonusF r t \<in> set (mod_Features m)
                       \<and> otherSubOwners s' r = Some (mod_ID m)))
       \<and> (\<forall>dieCount2 tooltip2 allowed2.
             weaponBonuses (snd (snd (collectWeaponBonuses X w dieCount2 tooltip2 allowed2 s')))
               = weaponBonuses s'
             \<and> skillBonuses (snd (snd (collectWeaponBonuses X w dieCount2 tooltip2 allowed2 s')))
               = skillBonuses s'
             \<and> otherSubOwners (snd (snd (collectWeaponBonuses X w dieCount2 tooltip2 allowed2 s')))
               = otherSubOwners s')"
proof -
  let ?ms = "traversedModifiers w"
  from collectWeaponBonuses_data [of X w dieCount tooltip allowed s] assms
  have wb: "weaponBonuses s' r
               = (case lastModifierWith (\<lambda>f. f = WeaponBonusF r) ?ms of
                    None \<Rightarrow> weaponBonuses s r
                  | Some i \<Rightarrow> (weaponBonuses s r)\<lparr>wb_SubOwner := Some i\<rparr>)"
    and sb: "skillBonuses s' r
               = (case lastModifierWith (\<lambda>f. f = SkillBonusF r) ?ms of
                    None \<Rightarrow> skillBonuses s r
                  | Some i \<Rightarrow> (skillBonuses s r)\<lparr>sb_SubOwner := Some i\<rparr>)"
    and ob: "otherSubOwners s' r
               = (case lastModifierWith (isOtherBonus r) ?ms of
                    None \<Rightarrow> otherSubOwners s r
                  | Some i \<Rightarrow> Some i)" for r
    by simp_all
  have lev: "Level (wb_LeveledAmount (weaponBonuses s' r)) = Level (wb_LeveledAmount (weaponBonuses s r))"
    for r
    by (simp add: wb split: option.splits)
  have pw: "\<exists>m'. m' \<in> set ?ms \<and> WeaponBonusF r \<in> set (mod_Features m')
                 \<and> weaponBonuses s' r = (weaponBonuses s r)\<lparr>wb_SubOwner := Some (mod_ID m')\<rparr>"
    if "m \<in> set ?ms \<and> WeaponBonusF r \<in> set (mod_Features m)" for m :: Modifier and r
  proof -
    from that lastModifierWith_None [of m ?ms "\<lambda>f. f = WeaponBonusF r"]
    obtain i where i: "lastModifierWith (\<lambda>f. f = WeaponBonusF r) ?ms = Some i"
      by (auto simp: list_ex_eq)
    from lastModifierWith_Some [OF i] obtain m' :: Modifier where
      "m' \<in> set ?ms" "WeaponBonusF r \<in> set (mod_Features m')" "mod_ID m' = i"
      by (auto simp: list_ex_eq)
    then show ?thesis using wb [of r] i by auto
  qed
  have ps: "\<exists>m'. m' \<in> set ?ms \<and> SkillBonusF r \<in> set (mod_Features m')
                 \<and> skillBonuses s' r = (skillBonuses s r)\<lparr>sb_SubOwner := Some (mod_ID m')\<rparr>"
    if "m \<in> set ?ms \<and> SkillBonusF r \<in> set (mod_Features m)" for m :: Modifier and r
  proof -
    from that lastModifierWith_None [of m ?ms "\<lambda>f. f = SkillBonusF r"]
    obtain i where i: "lastModifierWith (\<lambda>f. f = SkillBonusF r) ?ms = Some i"
      by (auto simp: list_ex_eq)
    from lastModifierWith_Some [OF i] obtain m' :: Modifier where
      "m' \<in> set ?ms" "SkillBonusF r \<in> set (mod_Features m')" "mod_ID m' = i"
      by (auto simp: list_ex_eq)
    then show ?thesis using sb [of r] i by auto
  qed
  have po: "\<exists>m'. m' \<in> set ?ms \<and> list_ex (isOtherBonus r) (mod_Features m')
                 \<and> otherSubOwners s' r = Some (mod_ID m')"
    if "m \<in> set ?ms \<and> OtherBonusF r t \<in> set (mod_Features m)" for m :: Modifier and r t
  proof -
    from that have "list_ex (isOtherBonus r) (mod_Features m)"
      by (auto simp: list_ex_iff isOtherBonus_def intro!: bexI [of _ "OtherBonusF r t"])
    with that lastModifierWith_None [of m ?ms "isOtherBonus r"]
    obtain i where i: "lastModifierWith (isOtherBonus r) ?ms = Some i" by auto
    from lastModifierWith_Some [OF i] obtain m' :: Modifier where
      "m' \<in> set ?ms" "list_ex (isOtherBonus r) (mod_Features m')" "mod_ID m' = i" by auto
    then show ?thesis using ob [of r] i by auto
  qed
  from collectWeaponBonuses_inv [OF assms]
  have w: "subOwnersWritten (Owner_Modifiers w) s s'" by simp
  have again: "weaponBonuses (snd (snd (collectWeaponBonuses X w d2 t2 a2 s'))) = weaponBonuses s'
             \<and> skillBonuses (snd (snd (collectWeaponBonuses X w d2 t2 a2 s'))) = skillBonuses s'
             \<and> otherSubOwners (snd (snd (collectWeaponBonuses X w d2 t2 a2 s'))) = otherSubOwners s'"
    for d2 t2 a2
  proof (intro conjI ext)
    fix r
    show "weaponBonuses (snd (snd (collectWeaponBonuses X w d2 t2 a2 s'))) r = weaponBonuses s' r"
      using collectWeaponBonuses_data [of X w d2 t2 a2 s' r] wb [of r]
      by (cases "lastModifierWith (\<lambda>f. f = WeaponBonusF r) ?ms") simp_all
    show "skillBonuses (snd (snd (collectWeaponBonuses X w d2 t2 a2 s'))) r = skillBonuses s' r"
      using collectWeaponBonuses_data [of X w d2 t2 a2 s' r] sb [of r]
      by (cases "lastModifierWith (\<lambda>f. f = SkillBonusF r) ?ms") simp_all
    show "otherSubOwners (snd (snd (collectWeaponBonuses X w d2 t2 a2 s'))) r = otherSubOwners s' r"
      using collectWeaponBonuses_data [of X w d2 t2 a2 s' r] ob [of r]
      by (cases "lastModifierWith (isOtherBonus r) ?ms") simp_all
  qed
  show ?thesis
    using lev wb sb ob pw ps po again w [unfolded subOwnersWritten_def]
    by (intro conjI allI impI) blast+
qed

theorem collectWeaponBonuses_writes_witness:
  "collectWeaponBonuses tellingExternals twoModifiersWeapon 1 (Some []) [WeaponBonusFeatureType]
      plusOneStore
     = ([1, 2], Some ''\<newline>modifier 7\<newline>modifier 8'',
        plusOneStore\<lparr>weaponBonuses := (weaponBonuses plusOneStore)
           (1 := (weaponBonuses plusOneStore 1)\<lparr>wb_SubOwner := Some 7\<rparr>,
            2 := (weaponBonuses plusOneStore 2)\<lparr>wb_SubOwner := Some 8\<rparr>)\<rparr>)
   \<and> (\<forall>r. Level (wb_LeveledAmount (weaponBonuses (snd (snd (collectWeaponBonuses tellingExternals
                twoModifiersWeapon 1 (Some []) [WeaponBonusFeatureType] plusOneStore))) r))
            = Level (wb_LeveledAmount (weaponBonuses plusOneStore r)))
   \<and> traversedModifiers twoModifiersWeapon
       = [\<lparr>mod_ID = 7, mod_Features = [WeaponBonusF 1]\<rparr>, \<lparr>mod_ID = 8, mod_Features = [WeaponBonusF 2]\<rparr>]
   \<and> lastModifierWith (\<lambda>f. f = WeaponBonusF 2) (traversedModifiers twoModifiersWeapon) = Some 8
   \<and> weaponBonuses (snd (snd (collectWeaponBonuses tellingExternals twoModifiersWeapon 1 (Some [])
         [WeaponBonusFeatureType] plusOneStore))) 2
       = (weaponBonuses plusOneStore 2)\<lparr>wb_SubOwner := Some 8\<rparr>
   \<and> weaponBonuses (snd (snd (collectWeaponBonuses tellingExternals twoModifiersWeapon 1 (Some [])
         [WeaponBonusFeatureType]
         (snd (snd (collectWeaponBonuses tellingExternals twoModifiersWeapon 1 (Some [])
            [WeaponBonusFeatureType] plusOneStore))))))
       = weaponBonuses (snd (snd (collectWeaponBonuses tellingExternals twoModifiersWeapon 1 (Some [])
            [WeaponBonusFeatureType] plusOneStore)))"
proof -
  have t: "traversedModifiers twoModifiersWeapon
       = [\<lparr>mod_ID = 7, mod_Features = [WeaponBonusF 1]\<rparr>, \<lparr>mod_ID = 8, mod_Features = [WeaponBonusF 2]\<rparr>]"
    by (simp add: traversedModifiers_def twoModifiersWeapon_def Weapon_PC_def Weapon_Entity_def
        Owner_Modifiers_def plainWeapon_def plainOwner_def plainEntity_def)
  have l: "lastModifierWith (\<lambda>f. f = WeaponBonusF 2) (traversedModifiers twoModifiersWeapon) = Some 8"
    unfolding t by (simp add: list_ex_eq)
  note c = collectWeaponBonuses_writes [OF twoModifiers_example]
  from c have lev: "\<forall>r. Level (wb_LeveledAmount (weaponBonuses (snd (snd (collectWeaponBonuses tellingExternals
                twoModifiersWeapon 1 (Some []) [WeaponBonusFeatureType] plusOneStore))) r))
            = Level (wb_LeveledAmount (weaponBonuses plusOneStore r))"
    unfolding twoModifiers_example snd_conv by blast
  from c have wb: "weaponBonuses (snd (snd (collectWeaponBonuses tellingExternals twoModifiersWeapon 1 (Some [])
         [WeaponBonusFeatureType] plusOneStore))) 2
       = (weaponBonuses plusOneStore 2)\<lparr>wb_SubOwner := Some 8\<rparr>"
    unfolding twoModifiers_example snd_conv by simp
  from c have again: "weaponBonuses (snd (snd (collectWeaponBonuses tellingExternals twoModifiersWeapon 1 (Some [])
         [WeaponBonusFeatureType]
         (snd (snd (collectWeaponBonuses tellingExternals twoModifiersWeapon 1 (Some [])
            [WeaponBonusFeatureType] plusOneStore))))))
       = weaponBonuses (snd (snd (collectWeaponBonuses tellingExternals twoModifiersWeapon 1 (Some [])
            [WeaponBonusFeatureType] plusOneStore)))"
    unfolding twoModifiers_example snd_conv by blast
  show ?thesis
    using twoModifiers_example t l lev wb again by (intro conjI)
qed

theorem sub_owner_is_written:
  "wb_SubOwner (weaponBonuses plusOneStore 1) = None
   \<and> wb_SubOwner (weaponBonuses (snd (snd (collectWeaponBonuses tellingExternals twoModifiersWeapon 1
         (Some []) [WeaponBonusFeatureType] plusOneStore))) 1) = Some 7"
  by (simp add: twoModifiers_example) (simp add: plusOneStore_def emptyStore_def)

subsection \<open>Selection types that the direct traversal passes over\<close>

text \<open>
  Claim C8, as amended. In \<open>extractWeaponBonus\<close> a bonus of an allowed type with the
  selection type "with required skill" is passed over in silence: the set, the buffer,
  the store and the log are what they were, nothing is logged. A bonus with an unknown
  selection type adds one entry to the log, and the set, the buffer and the rest of the
  store are what they were. Neither case has an error result.
\<close>

theorem extractWeaponBonus_passes_over:
  "(wb_Type (weaponBonuses s r) \<in> A
      \<and> wb_SelectionType (weaponBonuses s r) = WithRequiredSkillWeaponSelectionType
    \<longrightarrow> extractWeaponBonus X w (WeaponBonusF r) A d (bset, tooltip, s) = (bset, tooltip, s))
   \<and> (\<forall>n. wb_Type (weaponBonuses s r) \<in> A
          \<and> wb_SelectionType (weaponBonuses s r) = UnknownWeaponSelectionType n
        \<longrightarrow> extractWeaponBonus X w (WeaponBonusF r) A d (bset, tooltip, s)
            = (bset, tooltip, s\<lparr>errLog := errLog s @ [(''unknown selection type'', n)]\<rparr>))"
  by (simp add: extractWeaponBonus_def Let_def setLevel_def)

theorem extractWeaponBonus_passes_over_witness:
  "wb_Type (weaponBonuses requiredSkillStore 1) \<in> {WeaponBonusFeatureType}
   \<and> wb_SelectionType (weaponBonuses requiredSkillStore 1) = WithRequiredSkillWeaponSelectionType
   \<and> extractWeaponBonus noExternals plainWeapon (WeaponBonusF 1) {WeaponBonusFeatureType}
        (fxp_From 1) ([], Some [], requiredSkillStore) = ([], Some [], requiredSkillStore)
   \<and> wb_Type (weaponBonuses unknownSelectionStore 1) \<in> {WeaponBonusFeatureType}
   \<and> wb_SelectionType (weaponBonuses unknownSelectionStore 1) = UnknownWeaponSelectionType 9
   \<and> extractWeaponBonus noExternals plainWeapon (WeaponBonusF 1) {WeaponBonusFeatureType}
        (fxp_From 1) ([], Some [], unknownSelectionStore)
      = ([], Some [], unknownSelectionStore\<lparr>errLog :=
           errLog unknownSelectionStore @ [(''unknown selection type'', 9)]\<rparr>)"
proof -
  have a: "wb_Type (weaponBonuses requiredSkillStore 1) \<in> {WeaponBonusFeatureType}
      \<and> wb_SelectionType (weaponBonuses requiredSkillStore 1) = WithRequiredSkillWeaponSelectionType"
    by (simp add: requiredSkillStore_def emptyStore_def)
  have b: "wb_Type (weaponBonuses unknownSelectionStore 1) \<in> {WeaponBonusFeatureType}
      \<and> wb_SelectionType (weaponBonuses unknownSelectionStore 1) = UnknownWeaponSelectionType 9"
    by (simp add: unknownSelectionStore_def emptyStore_def)
  show ?thesis
    using a b
      extractWeaponBonus_passes_over [of requiredSkillStore 1 "{WeaponBonusFeatureType}"
        noExternals plainWeapon "fxp_From 1" "[]" "Some []"]
      extractWeaponBonus_passes_over [of unknownSelectionStore 1 "{WeaponBonusFeatureType}"
        noExternals plainWeapon "fxp_From 1" "[]" "Some []"]
    by blast
qed

theorem required_skill_bonus_not_logged:
  "wb_SelectionType (weaponBonuses requiredSkillStore 1) = WithRequiredSkillWeaponSelectionType
   \<and> errLog requiredSkillStore = []
   \<and> errLog (snd (snd (extractWeaponBonus noExternals plainWeapon (WeaponBonusF 1)
        {WeaponBonusFeatureType} (fxp_From 1) ([], Some [], requiredSkillStore)))) = []"
  by (simp add: extractWeaponBonus_def Let_def setLevel_def requiredSkillStore_def emptyStore_def)

subsection \<open>Minimum strength and accuracy\<close>

lemma sumAdjusted_sum:
  "sumAdjusted s bonuses v
   = v + sum_list (map (\<lambda>r. AdjustedAmount (wb_LeveledAmount (weaponBonuses s r))) bonuses)"
  unfolding sumAdjusted_def
  by (induction bonuses arbitrary: v) (simp_all add: add.assoc)

lemma fxp_max_0_nonneg: "0 \<le>s fxp_max f 0"
  by (simp add: fxp_max_def word_sle_eq word_sless_alt)

lemma fxp_max_0_positive: "0 <s f \<Longrightarrow> fxp_max f 0 = f \<and> f \<noteq> 0"
  by (auto simp: fxp_max_def)

lemma fxp_max_0_not_positive: "\<not> 0 <s f \<Longrightarrow> fxp_max f 0 = 0"
  by (simp add: fxp_max_def)

text \<open>
  Claim C5. When the owner of a weapon reports a positive rated strength,
  \<open>ResolvedMinimumStrength\<close> returns exactly that strength, whatever the stored minimum ST
  and whatever bonuses the store holds, and collects nothing. When there is no owner or
  the rated strength is not positive, it returns the stored minimum ST plus the adjusted
  amounts of the collected bonuses, all of them minimum-ST bonuses, floored at zero.
\<close>

theorem ResolvedMinimumStrength_rated:
  "(\<forall>ow. Owner w = Some ow \<and> 0 <s RatedStrength ow
       \<longrightarrow> (\<forall>m tooltip s. ResolvedMinimumStrength X (w\<lparr>MinST := m\<rparr>) tooltip s
                            = (RatedStrength ow, tooltip, s)))
   \<and> ((\<forall>ow. Owner w = Some ow \<longrightarrow> \<not> 0 <s RatedStrength ow)
       \<longrightarrow> (\<forall>bonuses tooltip' s'.
              collectWeaponBonuses X w 1 tooltip [WeaponMinSTBonusFeatureType] s = (bonuses, tooltip', s')
              \<longrightarrow> ResolvedMinimumStrength X w tooltip s
                    = (fxp_max (MinST w + sum_list (map (\<lambda>r. AdjustedAmount
                                   (wb_LeveledAmount (weaponBonuses s' r))) bonuses)) 0,
                       tooltip', s')
                  \<and> list_all (\<lambda>r. wb_Type (weaponBonuses s' r) = WeaponMinSTBonusFeatureType) bonuses
                  \<and> 0 \<le>s fst (ResolvedMinimumStrength X w tooltip s)))"
proof (intro conjI allI impI)
  fix ow m tooltip s
  assume "Owner w = Some ow \<and> 0 <s RatedStrength ow"
  then show "ResolvedMinimumStrength X (w\<lparr>MinST := m\<rparr>) tooltip s = (RatedStrength ow, tooltip, s)"
    using fxp_max_0_positive [of "RatedStrength ow"]
    by (simp add: ResolvedMinimumStrength_def)
next
  fix bonuses tooltip' s'
  assume no: "\<forall>ow. Owner w = Some ow \<longrightarrow> \<not> 0 <s RatedStrength ow"
    and c: "collectWeaponBonuses X w 1 tooltip [WeaponMinSTBonusFeatureType] s = (bonuses, tooltip', s')"
  have st: "(case Owner w of None \<Rightarrow> 0 | Some ow \<Rightarrow> fxp_max (RatedStrength ow) 0) = 0"
    using no by (auto split: option.splits simp: fxp_max_0_not_positive)
  show r: "ResolvedMinimumStrength X w tooltip s
        = (fxp_max (MinST w + sum_list (map (\<lambda>r. AdjustedAmount
                       (wb_LeveledAmount (weaponBonuses s' r))) bonuses)) 0, tooltip', s')"
    by (simp add: ResolvedMinimumStrength_def st c sumAdjusted_sum)
  show "0 \<le>s fst (ResolvedMinimumStrength X w tooltip s)"
    by (simp add: r fxp_max_0_nonneg)
  from collectWeaponBonuses_inv [OF c]
  have a: "list_all (\<lambda>r. wb_Type (weaponBonuses s r) \<in> set [WeaponMinSTBonusFeatureType]) bonuses"
    and w: "subOwnersWritten (Owner_Modifiers w) s s'"
    by (simp_all add: collected_def)
  have "wb_Type (weaponBonuses s' r) = wb_Type (weaponBonuses s r)" for r
    using subOwnersWritten_wb [OF w, of r] by auto
  then show "list_all (\<lambda>r. wb_Type (weaponBonuses s' r) = WeaponMinSTBonusFeatureType) bonuses"
    using a by (simp add: list_all_iff)
qed

lemma heavyWeapon_collect:
  "collectWeaponBonuses noExternals heavyWeapon 1 None [WeaponMinSTBonusFeatureType] minSTStore
   = ([1, 2], None,
      minSTStore\<lparr>weaponBonuses := (weaponBonuses minSTStore)
         (1 := (weaponBonuses minSTStore 1)\<lparr>wb_SubOwner := Some 7\<rparr>,
          2 := (weaponBonuses minSTStore 2)\<lparr>wb_SubOwner := Some 8\<rparr>)\<rparr>)"
  by (simp add: example_defs heavyWeapon_def twoModifiersWeapon_def minSTStore_def plusOneStore_def)

theorem ResolvedMinimumStrength_rated_witness:
  "Owner ratedWeapon = Some ratedOwner \<and> 0 <s RatedStrength ratedOwner
   \<and> ResolvedMinimumStrength noExternals (ratedWeapon\<lparr>MinST := fxp_From 13\<rparr>) None minSTStore
       = (fxp_From 11, None, minSTStore)
   \<and> Owner heavyWeapon \<noteq> None \<and> RatedStrength (the (Owner heavyWeapon)) = 0
   \<and> MinST heavyWeapon = fxp_From 12
   \<and> fst (ResolvedMinimumStrength noExternals heavyWeapon None minSTStore) = fxp_From 14"
proof -
  have a: "Owner ratedWeapon = Some ratedOwner \<and> 0 <s RatedStrength ratedOwner"
    by (simp add: ratedWeapon_def ratedOwner_def fxp_From_def Multiplier_def word_sless_alt)
  have b: "\<forall>ow. Owner heavyWeapon = Some ow \<longrightarrow> \<not> 0 <s RatedStrength ow"
    by (simp add: heavyWeapon_def twoModifiersWeapon_def plainOwner_def)
  have r: "RatedStrength ratedOwner = fxp_From 11" by (simp add: ratedOwner_def)
  have v: "fxp_max (MinST heavyWeapon + sum_list (map (\<lambda>r. AdjustedAmount (wb_LeveledAmount
              (weaponBonuses (minSTStore\<lparr>weaponBonuses := (weaponBonuses minSTStore)
                 (1 := (weaponBonuses minSTStore 1)\<lparr>wb_SubOwner := Some 7\<rparr>,
                  2 := (weaponBonuses minSTStore 2)\<lparr>wb_SubOwner := Some 8\<rparr>)\<rparr>) r))) [1, 2])) 0
           = fxp_From 14"
    by (simp add: heavyWeapon_def minSTStore_def plusOneStore_def emptyStore_def AdjustedAmount_def
        fxp_From_def Multiplier_def fxp_max_def word_sless_alt)
  have o: "Owner heavyWeapon \<noteq> None \<and> RatedStrength (the (Owner heavyWeapon)) = 0
           \<and> MinST heavyWeapon = fxp_From 12"
    by (simp add: heavyWeapon_def twoModifiersWeapon_def plainOwner_def)
  show ?thesis
    using a b r v o heavyWeapon_collect
      ResolvedMinimumStrength_rated [of ratedWeapon noExternals None minSTStore]
      ResolvedMinimumStrength_rated [of heavyWeapon noExternals None minSTStore]
    by (auto simp del: fun_upd_apply)
qed

lemma ResolvedAccuracy_jet:
  "Jet w \<Longrightarrow> ResolvedAccuracy X w tooltip s = ((0, 0), tooltip, s)"
  by (simp add: ResolvedAccuracy_def)

lemma ResolvedAccuracy_PC_nonneg:
  assumes "\<not> Jet w" and "Weapon_PC w = Some pc"
  shows "0 \<le>s fst (fst (ResolvedAccuracy X w tooltip s))
       \<and> 0 \<le>s snd (fst (ResolvedAccuracy X w tooltip s))"
  using assms
  by (simp add: ResolvedAccuracy_def fxp_max_0_nonneg split: prod.splits)

lemma Resolve_nonneg:
  "0 \<le>s Base (fst (Resolve X wa w tooltip s)) \<and> 0 \<le>s Scope (fst (Resolve X wa w tooltip s))"
  by (simp add: Resolve_def Validate_def fxp_max_0_nonneg split: option.splits prod.splits)

lemma Resolve_jet:
  "ResolveBoolFlag X w JetWeaponSwitchType (Jet w)
   \<Longrightarrow> Resolve X wa w tooltip s = (\<lparr>Base = 0, Scope = 0\<rparr>, tooltip, s)"
  by (simp add: Resolve_def)

text \<open>
  Claim C3. A jet weapon resolves to zero accuracy (\<open>ResolvedAccuracy_jet\<close>), and
  \<open>WeaponAccuracy.Resolve\<close> never returns a negative component (\<open>Resolve_nonneg\<close>), nor
  does \<open>ResolvedAccuracy\<close> for a weapon of a PC (\<open>ResolvedAccuracy_PC_nonneg\<close>). For a
  weapon without a PC, \<open>ResolvedAccuracy\<close> returns the stored values as they are: a weapon
  that is not a jet, has no owner and stores the accuracy -1 resolves to -1, where
  \<open>Resolve\<close> on the same values gives 0.
\<close>

theorem ResolvedAccuracy_unowned_negative:
  "\<not> Jet (unownedWeapon\<lparr>WeaponAcc := - fxp_From 1\<rparr>)
   \<and> ResolvedAccuracy noExternals (unownedWeapon\<lparr>WeaponAcc := - fxp_From 1\<rparr>) None emptyStore
       = ((- fxp_From 1, 0), None, emptyStore)
   \<and> - fxp_From 1 <s (0 :: fxp)
   \<and> fst (Resolve noExternals \<lparr>Base = - fxp_From 1, Scope = 0\<rparr>
             (unownedWeapon\<lparr>WeaponAcc := - fxp_From 1\<rparr>) None emptyStore)
       = \<lparr>Base = 0, Scope = 0\<rparr>"
  by (simp add: ResolvedAccuracy_def Resolve_def Validate_def fxp_max_def unownedWeapon_def
      plainWeapon_def Weapon_PC_def Weapon_Entity_def noExternals_def fxp_From_def Multiplier_def
      word_sless_alt)

subsection \<open>Skill level\<close>

lemma extractSkillBonus_fst:
  "fst (extractSkillBonusForThisWeapon X w s f (adj, t)) = adj + thisWeaponSkillBonus w s f"
  by (cases f) (simp_all add: extractSkillBonusForThisWeapon_def thisWeaponSkillBonus_def Let_def)

lemma fold_extractSkillBonus_fst:
  "fst (fold (extractSkillBonusForThisWeapon X w s) fs acc)
   = fst acc + sum_list (map (thisWeaponSkillBonus w s) fs)"
proof (induction fs arbitrary: acc)
  case Nil
  then show ?case by simp
next
  case (Cons f fs)
  show ?case
    using extractSkillBonus_fst [of X w s f "fst acc" "snd acc"]
    by (simp add: Cons.IH add.assoc)
qed

lemma fold_modifiers_extractSkillBonus_fst:
  "fst (fold (\<lambda>m. fold (extractSkillBonusForThisWeapon X w s) (mod_Features m)) ms acc)
   = fst acc + sum_list (map (thisWeaponSkillBonus w s) (concat (map mod_Features ms)))"
proof (induction ms arbitrary: acc)
  case Nil
  then show ?case by simp
next
  case (Cons m ms)
  show ?case
    by (simp add: Cons.IH fold_extractSkillBonus_fst add.assoc)
qed

lemma fold_named_sum:
  "fold (\<lambda>r adj. adj + AdjustedAmount (sb_LeveledAmount (skillBonuses s r))) rs v
   = v + sum_list (map (\<lambda>r. AdjustedAmount (sb_LeveledAmount (skillBonuses s r))) rs)"
  by (induction rs arbitrary: v) (simp_all add: add.assoc)

lemma skillLevelBaseAdjustment_value:
  assumes "ResolvedMinimumStrength X w None s = (resolved, t', s')"
  shows "skillLevelBaseAdjustment X w entity tooltip s
         = (fst (skillLevelBaseAdjustment X w entity tooltip s),
            fst (snd (skillLevelBaseAdjustment X w entity tooltip s)), s')
       \<and> fst (skillLevelBaseAdjustment X w entity tooltip s)
         = (if 0 <s resolved - StrikingStrength entity
            then - (resolved - StrikingStrength entity) else 0)
           + skillBonusTotal w entity s'"
  by (simp add: skillLevelBaseAdjustment_def assms Let_def fold_modifiers_extractSkillBonus_fst
      fold_extractSkillBonus_fst fold_named_sum NamedWeaponSkillBonusesFor_def skillBonusTotal_def
      add.assoc)

lemma sint_fxp_Min_le: "sint fxp_Min \<le> sint (x :: fxp)"
  using sint_ge [of x] by (simp add: fxp_Min_def)

lemma applicableLevels_Cons:
  "applicableLevels pc adj (d # ds)
   = (if SkillLevelFast pc d \<noteq> fxp_Min then [SkillLevelFast pc d + adj] else [])
     @ applicableLevels pc adj ds"
  by (simp add: applicableLevels_def)

lemma fold_bestLevel:
  "sint (fold (bestLevel pc adj) ds b) = Max (insert (sint b) (sint ` set (applicableLevels pc adj ds)))"
proof (induction ds arbitrary: b)
  case Nil
  then show ?case by (simp add: applicableLevels_def)
next
  case (Cons d ds)
  let ?l = "SkillLevelFast pc d + adj"
  let ?S = "sint ` set (applicableLevels pc adj ds)"
  have f: "fold (bestLevel pc adj) (d # ds) b = fold (bestLevel pc adj) ds (bestLevel pc adj d b)"
    by simp
  show ?case
  proof (cases "SkillLevelFast pc d = fxp_Min")
    case True
    then have "bestLevel pc adj d b = b" by (simp add: bestLevel_def)
    then show ?thesis
      unfolding f Cons.IH using True by (simp add: applicableLevels_Cons)
  next
    case False
    have fin: "finite ?S" by simp
    have step: "sint (bestLevel pc adj d b) = max (sint b) (sint ?l)"
      using False by (simp add: bestLevel_def word_sless_alt max_def)
    have "Max (insert (max (sint b) (sint ?l)) ?S) = Max (insert (sint b) (insert (sint ?l) ?S))"
    proof (cases "?S = {}")
      case True
      then show ?thesis by (simp add: max.commute)
    next
      case False
      then show ?thesis using fin by (simp add: max.assoc)
    qed
    then show ?thesis
      unfolding f Cons.IH step using False by (simp add: applicableLevels_Cons)
  qed
qed

lemma SkillLevel_value:
  assumes pc: "Weapon_PC w = Some pc"
    and b: "skillLevelBaseAdjustment X w pc (newBuffer tooltip) s = (preAdj, primary1, s1)"
    and p: "skillLevelPostAdjustment X w pc primary1 = (postAdj, primaryTooltip)"
  shows "sint (fst (SkillLevel X w tooltip s))
         = Max (insert 0 (sint ` set (applicableLevels pc (preAdj + postAdj) (Defaults w))))"
proof -
  define best where "best = fold (bestLevel pc (preAdj + postAdj)) (Defaults w) fxp_Min"
  let ?S = "sint ` set (applicableLevels pc (preAdj + postAdj) (Defaults w))"
  have r: "fst (SkillLevel X w tooltip s) = (if best = fxp_Min then 0 else if best <s 0 then 0 else best)"
    by (simp add: SkillLevel_def pc b p Let_def best_def)
  have m: "sint fxp_Min < 0" by (simp add: fxp_Min_def)
  have "sint (fst (SkillLevel X w tooltip s)) = max 0 (sint best)"
    using m by (auto simp: r word_sless_alt max_def)
  also have "sint best = Max (insert (sint fxp_Min) ?S)"
    unfolding best_def by (rule fold_bestLevel)
  also have "max 0 (Max (insert (sint fxp_Min) ?S)) = Max (insert 0 (insert (sint fxp_Min) ?S))"
    by simp
  also have "insert 0 (insert (sint fxp_Min) ?S) = insert (sint fxp_Min) (insert 0 ?S)"
    by auto
  also have "Max (insert (sint fxp_Min) (insert 0 ?S)) = max (sint fxp_Min) (Max (insert 0 ?S))"
    by simp
  also have "\<dots> = Max (insert 0 ?S)"
  proof -
    have "0 \<le> Max (insert 0 ?S)" by simp
    with m have "sint fxp_Min \<le> Max (insert 0 ?S)" by linarith
    then show ?thesis by (simp only: max_absorb2)
  qed
  finally show ?thesis .
qed

lemmas skill_example_defs =
  SkillLevel_def skillLevelBaseAdjustment_def skillLevelPostAdjustment_def
  ResolvedMinimumStrength_def NamedWeaponSkillBonusesFor_def EncumbrancePenalty_def
  sumAdjusted_def bestLevel_def newBuffer_def joinTooltip_def Contains_def fxp_max_def
  fxp_From_def fxp_Min_def Multiplier_def word_sless_alt

lemma swordWeapon_SkillLevel:
  "SkillLevel noExternals swordWeapon None emptyStore = (fxp_From 12, None, emptyStore)"
  by (simp add: skill_example_defs example_defs swordWeapon_def swordEntity_def SkillID_def)

text \<open>
  Claim C1. For a weapon of a PC, \<open>SkillLevel\<close> returns the highest of the levels of the
  defaults after the adjustment has been added, floored at zero: zero when every default
  resolves to the sentinel, and never a negative value. The base adjustment takes off the
  minimum-ST shortfall (resolved minimum strength minus striking strength) when that is
  positive, and adds the skill bonuses. With Strength 10, a required minimum strength 12,
  a default that gives level 14 and no bonuses, the level is 12.
\<close>

theorem SkillLevel_highest_default:
  "(Weapon_PC w = Some pc \<longrightarrow>
      (let base = skillLevelBaseAdjustment X w pc (newBuffer tooltip) s;
           adj = fst base + fst (skillLevelPostAdjustment X w pc (fst (snd base)));
           levels = applicableLevels pc adj (Defaults w);
           shortfall = fst (ResolvedMinimumStrength X w None s) - StrikingStrength pc
       in sint (fst (SkillLevel X w tooltip s)) = Max (insert 0 (sint ` set levels))
          \<and> (levels = [] \<longrightarrow> fst (SkillLevel X w tooltip s) = 0)
          \<and> 0 \<le>s fst (SkillLevel X w tooltip s)
          \<and> fst base = (if 0 <s shortfall then - shortfall else 0)
                        + skillBonusTotal w pc (snd (snd base))))
   \<and> Weapon_PC swordWeapon = Some swordEntity
   \<and> StrikingStrength swordEntity = fxp_From 10
   \<and> fst (ResolvedMinimumStrength noExternals swordWeapon None emptyStore) = fxp_From 12
   \<and> applicableLevels swordEntity 0 (Defaults swordWeapon) = [fxp_From 14]
   \<and> fst (SkillLevel noExternals swordWeapon None emptyStore) = fxp_From 12"
proof (intro conjI impI)
  assume pc: "Weapon_PC w = Some pc"
  obtain preAdj primary1 s1 where
    b: "skillLevelBaseAdjustment X w pc (newBuffer tooltip) s = (preAdj, primary1, s1)"
    by (cases "skillLevelBaseAdjustment X w pc (newBuffer tooltip) s") auto
  obtain postAdj primaryTooltip where
    p: "skillLevelPostAdjustment X w pc primary1 = (postAdj, primaryTooltip)"
    by (cases "skillLevelPostAdjustment X w pc primary1") auto
  obtain resolved t' s' where m: "ResolvedMinimumStrength X w None s = (resolved, t', s')"
    by (cases "ResolvedMinimumStrength X w None s") auto
  note v = SkillLevel_value [OF pc b p]
  have e: "levels = [] \<Longrightarrow> Max (insert (0::int) (sint ` set levels)) = 0" for levels :: "fxp list"
    by simp
  have n: "0 \<le> Max (insert (0::int) (sint ` set levels))" for levels :: "fxp list"
    by simp
  from skillLevelBaseAdjustment_value [OF m, of pc "newBuffer tooltip"]
  have a: "preAdj = (if 0 <s resolved - StrikingStrength pc
                     then - (resolved - StrikingStrength pc) else 0) + skillBonusTotal w pc s1"
    by (simp add: b)
  show "let base = skillLevelBaseAdjustment X w pc (newBuffer tooltip) s;
           adj = fst base + fst (skillLevelPostAdjustment X w pc (fst (snd base)));
           levels = applicableLevels pc adj (Defaults w);
           shortfall = fst (ResolvedMinimumStrength X w None s) - StrikingStrength pc
       in sint (fst (SkillLevel X w tooltip s)) = Max (insert 0 (sint ` set levels))
          \<and> (levels = [] \<longrightarrow> fst (SkillLevel X w tooltip s) = 0)
          \<and> 0 \<le>s fst (SkillLevel X w tooltip s)
          \<and> fst base = (if 0 <s shortfall then - shortfall else 0)
                        + skillBonusTotal w pc (snd (snd base))"
    unfolding Let_def b p m fst_conv snd_conv
  proof (intro conjI impI)
    show "sint (fst (SkillLevel X w tooltip s))
          = Max (insert 0 (sint ` set (applicableLevels pc (preAdj + postAdj) (Defaults w))))"
      by (rule v)
    show "fst (SkillLevel X w tooltip s) = 0"
      if "applicableLevels pc (preAdj + postAdj) (Defaults w) = []"
      using v e [OF that] by (simp add: signed_eq_0_iff)
    show "0 \<le>s fst (SkillLevel X w tooltip s)"
      using v n [of "applicableLevels pc (preAdj + postAdj) (Defaults w)"]
      by (simp add: word_sle_eq)
    show "preAdj = (if 0 <s resolved - StrikingStrength pc
                    then - (resolved - StrikingStrength pc) else 0) + skillBonusTotal w pc s1"
      by (rule a)
  qed
next
  show "Weapon_PC swordWeapon = Some swordEntity"
    by (simp add: Weapon_PC_def Weapon_Entity_def swordWeapon_def swordEntity_def plainEntity_def)
  show "StrikingStrength swordEntity = fxp_From 10"
    by (simp add: swordEntity_def plainEntity_def)
  show "fst (ResolvedMinimumStrength noExternals swordWeapon None emptyStore) = fxp_From 12"
    by (simp add: skill_example_defs example_defs swordWeapon_def swordEntity_def)
  show "applicableLevels swordEntity 0 (Defaults swordWeapon) = [fxp_From 14]"
    by (simp add: applicableLevels_def swordWeapon_def swordEntity_def plainEntity_def SkillID_def
        fxp_From_def fxp_Min_def Multiplier_def)
  show "fst (SkillLevel noExternals swordWeapon None emptyStore) = fxp_From 12"
    by (simp add: swordWeapon_SkillLevel)
qed

theorem SkillLevel_highest_default_witness:
  "Weapon_PC swordWeapon = Some swordEntity
   \<and> fst (SkillLevel noExternals swordWeapon None emptyStore) = fxp_From 12
   \<and> 0 \<le>s fst (SkillLevel noExternals swordWeapon None emptyStore)
   \<and> Weapon_PC plainWeapon = Some plainEntity
   \<and> applicableLevels plainEntity 0 (Defaults plainWeapon) = []
   \<and> fst (SkillLevel noExternals plainWeapon None emptyStore) = 0"
proof -
  have p: "Weapon_PC plainWeapon = Some plainEntity"
    by (simp add: Weapon_PC_def Weapon_Entity_def plainWeapon_def plainOwner_def plainEntity_def)
  have d: "applicableLevels plainEntity adj (Defaults plainWeapon) = []" for adj
    by (simp add: applicableLevels_def plainWeapon_def)
  show ?thesis
    using p d
      SkillLevel_highest_default [of swordWeapon swordEntity noExternals None emptyStore]
      SkillLevel_highest_default [of plainWeapon plainEntity noExternals None emptyStore]
    by (simp add: Let_def fxp_From_def Multiplier_def word_sle_eq)
qed

subsection \<open>Parry and block: the encumbrance penalty of Karate\<close>









end
